theory Spec2Isabelle
  imports Complex_Main "HOL-Library.AList" "HOL-Library.Word"
begin

section \<open>Python values\<close>

text \<open>
  A Python \<^verbatim>\<open>str\<close> is a sequence of Unicode code points, so \<^verbatim>\<open>len\<close> is the
  list length and slicing is \<open>take\<close>/\<open>drop\<close>.  String constants of the source are written
  \<open>lit ''...''\<close>.  Instants returned by \<^verbatim>\<open>time.time()\<close> are modelled as exact real
  numbers (the source holds them in doubles).
\<close>

type_synonym str = "nat list"

definition lit :: "string \<Rightarrow> str" where
  "lit s = map of_char s"

text \<open>\<^verbatim>\<open>int(x)\<close> on a float: truncation toward zero.\<close>

definition py_int :: "real \<Rightarrow> int" where
  "py_int x = (if 0 \<le> x then \<lfloor>x\<rfloor> else \<lceil>x\<rceil>)"

text \<open>\<^verbatim>\<open>xs[-n:]\<close> for a positive constant \<open>n\<close>: the last \<open>n\<close> elements, or all of them.\<close>

definition py_last :: "nat \<Rightarrow> 'a list \<Rightarrow> 'a list" where
  "py_last n xs = drop (length xs - n) xs"

section \<open>The relay (src/src/sos/relay.py)\<close>

definition ROOM_TTL :: real where
  "ROOM_TTL = 3600"

definition MAX_MESSAGES :: nat where
  "MAX_MESSAGES = 500"

definition RATE_LIMIT_COOLDOWN :: real where
  "RATE_LIMIT_COOLDOWN = 1800"

definition RATE_LIMIT_DELAYS :: "nat list" where
  "RATE_LIMIT_DELAYS = [0, 10, 30, 60, 180, 300]"

subsection \<open>RateLimiter\<close>

text \<open>
  \<^verbatim>\<open>self._attempts\<close> maps an IP to \<^verbatim>\<open>{"count", "last_attempt"}\<close>.  The counter is only
  ever set to 0 or incremented, so it is a natural number.
\<close>

record attempt =
  count :: nat
  last_attempt :: real

type_synonym rate_limiter = "str \<rightharpoonup> attempt"

text \<open>
  \<^verbatim>\<open>RateLimiter.check(ip)\<close>, with the clock reading \<open>now\<close> as an argument.  It returns
  \<^verbatim>\<open>(allowed, retry_after)\<close> and the updated table.
\<close>

definition RateLimiter_check :: "rate_limiter \<Rightarrow> str \<Rightarrow> real \<Rightarrow> (bool \<times> int) \<times> rate_limiter" where
  "RateLimiter_check attempts ip now =
     (case attempts ip of
        None \<Rightarrow> ((True, 0), attempts(ip \<mapsto> \<lparr>count = 0, last_attempt = now\<rparr>))
      | Some data \<Rightarrow>
          if now - last_attempt data > RATE_LIMIT_COOLDOWN
          then ((True, 0), attempts(ip \<mapsto> data\<lparr>count := 0, last_attempt := now\<rparr>))
          else
            let delay_idx = min (count data) (length RATE_LIMIT_DELAYS - 1);
                required_delay = RATE_LIMIT_DELAYS ! delay_idx;
                elapsed = now - last_attempt data
            in if elapsed \<ge> real required_delay
               then ((True, 0), attempts(ip \<mapsto> data\<lparr>count := count data + 1, last_attempt := now\<rparr>))
               else ((False, py_int (real required_delay - elapsed)), attempts))"

text \<open>\<^verbatim>\<open>RateLimiter.reset(ip)\<close>: delete the entry if there is one.\<close>

definition RateLimiter_reset :: "rate_limiter \<Rightarrow> str \<Rightarrow> rate_limiter" where
  "RateLimiter_reset attempts ip = (if ip \<in> dom attempts then attempts(ip := None) else attempts)"

text \<open>
  A run of attempts from one IP at the given instants, nothing else touching the entry in
  between: the flags returned and the final table.
\<close>

fun check_all :: "rate_limiter \<Rightarrow> str \<Rightarrow> real list \<Rightarrow> bool list \<times> rate_limiter" where
  "check_all attempts ip [] = ([], attempts)"
| "check_all attempts ip (t # ts) =
     (let (r, attempts') = RateLimiter_check attempts ip t;
          (oks, attempts'') = check_all attempts' ip ts
      in (fst r # oks, attempts''))"

text \<open>The gaps between consecutive instants of a run are within the cooldown.\<close>

fun within_cooldown :: "real list \<Rightarrow> bool" where
  "within_cooldown (t # u # ts) = (u - t \<le> RATE_LIMIT_COOLDOWN \<and> within_cooldown (u # ts))"
| "within_cooldown _ = True"

text \<open>
  An attempt at \<open>t\<close> opens a window: the IP has no entry, or its last permitted attempt is
  more than the cooldown ago.
\<close>

definition opens_window :: "rate_limiter \<Rightarrow> str \<Rightarrow> real \<Rightarrow> bool" where
  "opens_window attempts ip t =
     (case attempts ip of None \<Rightarrow> True | Some data \<Rightarrow> t - last_attempt data > RATE_LIMIT_COOLDOWN)"

text \<open>
  The rule as the specification words it: the k-th attempt is permitted iff \<open>k \<le> 1\<close> or
  the gap exceeds \<open>table[min(k - 1, 5)]\<close>.
\<close>

definition spec_kth_permitted :: "nat \<Rightarrow> real \<Rightarrow> bool" where
  "spec_kth_permitted k gap = (k \<le> 1 \<or> gap > real (RATE_LIMIT_DELAYS ! min (k - 1) 5))"

subsection \<open>Rooms, messages, requests and responses\<close>

text \<open>
  \<^verbatim>\<open>MessageData\<close> (the field \<^verbatim>\<open>id\<close> is \<open>msg_id\<close> here) and \<^verbatim>\<open>RoomData\<close>.  The
  roster \<^verbatim>\<open>members\<close> is a dict; its insertion order shows in \<^verbatim>\<open>list(members.values())\<close>,
  so it is an association list updated with \<open>AList.update\<close>.
\<close>

record MessageData =
  msg_id :: str
  sender :: str
  content :: str
  timestamp :: real

record RoomData =
  room_hash :: str
  mode :: str
  created_at :: real
  expires_at :: real
  members :: "(str \<times> str) list"
  messages :: "MessageData list"

text \<open>
  The relay with its in-memory store, as it runs when no Redis is attached
  (\<^verbatim>\<open>self._redis = None\<close>).
\<close>

record SOSRelay =
  rooms :: "str \<rightharpoonup> RoomData"
  rate_limiter :: rate_limiter

text \<open>
  The result of \<^verbatim>\<open>await request.json()\<close>: it raises, or gives the parsed body.  For join
  and send the body is an object whose keys are fields that are \<open>None\<close> when the key is
  absent and hold a string otherwise.
\<close>

datatype 'a request_json = InvalidJson | JsonBody 'a

text \<open>
  For create the body is any JSON value, as \<^verbatim>\<open>json.loads\<close> gives it: \<^verbatim>\<open>None\<close>, a bool, a
  number, a string, a list, or a dict with each key once, in the order of the text.
\<close>

datatype json =
    JNull
  | JBool bool
  | JNumber real
  | JString str
  | JArray "json list"
  | JObject "(str \<times> json) list"

text \<open>Python's truth value of such a value.\<close>

definition py_truthy :: "json \<Rightarrow> bool" where
  "py_truthy v =
     (case v of
        JNull \<Rightarrow> False
      | JBool b \<Rightarrow> b
      | JNumber x \<Rightarrow> x \<noteq> 0
      | JString s \<Rightarrow> s \<noteq> []
      | JArray xs \<Rightarrow> xs \<noteq> []
      | JObject kvs \<Rightarrow> kvs \<noteq> [])"

text \<open>\<^verbatim>\<open>len(v)\<close>; \<open>None\<close> where it raises \<^verbatim>\<open>TypeError\<close>.\<close>

definition py_len :: "json \<Rightarrow> nat option" where
  "py_len v =
     (case v of
        JString s \<Rightarrow> Some (length s)
      | JArray xs \<Rightarrow> Some (length xs)
      | JObject kvs \<Rightarrow> Some (length kvs)
      | _ \<Rightarrow> None)"

text \<open>\<^verbatim>\<open>data.get(key)\<close> on a dict: \<^verbatim>\<open>None\<close> for a key that is absent.\<close>

definition dict_get :: "(str \<times> json) list \<Rightarrow> str \<Rightarrow> json" where
  "dict_get kvs k = (case map_of kvs k of None \<Rightarrow> JNull | Some v \<Rightarrow> v)"

record join_body =
  jb_nickname :: "str option"

record send_body =
  sb_content :: "str option"
  sb_sender :: "str option"
  sb_member_id :: "str option"

datatype response_body =
    ErrorBody string
  | UnhandledError string
  | RateLimitedBody (retry_after: int)
  | CreatedBody str str real real str "str list"
  | JoinedBody str str real real str "str list" nat real
  | SentBody str real
  | PollBody (body_messages: "MessageData list") (body_members: "str list")
      (body_expires_at: real) (body_message_count: nat)

type_synonym response = "nat \<times> response_body"

text \<open>
  \<open>UnhandledError\<close> names an exception that leaves a handler; the server answers it with
  status 500.
\<close>

text \<open>
  \<^verbatim>\<open>_get_room\<close>: an expired room is deleted on access.  Every handler below takes the
  clock reading \<open>now\<close> and the string of a fresh \<^verbatim>\<open>uuid.uuid4()\<close> as arguments; one
  reading stands for all the clock reads of one request.
\<close>

definition get_room :: "SOSRelay \<Rightarrow> str \<Rightarrow> real \<Rightarrow> RoomData option \<times> SOSRelay" where
  "get_room st h now =
     (case rooms st h of
        Some room \<Rightarrow>
          if now < expires_at room then (Some room, st)
          else (None, st\<lparr>rooms := (rooms st)(h := None)\<rparr>)
      | None \<Rightarrow> (None, st))"

definition save_room :: "SOSRelay \<Rightarrow> RoomData \<Rightarrow> SOSRelay" where
  "save_room st room = st\<lparr>rooms := (rooms st)(room_hash room \<mapsto> room)\<rparr>"

text \<open>
  The handlers change the room object they got from the store in place, so the entry under
  the looked-up key changes before \<^verbatim>\<open>_save_room\<close> stores it under its own hash.
\<close>

definition mutate_room :: "SOSRelay \<Rightarrow> str \<Rightarrow> RoomData \<Rightarrow> SOSRelay" where
  "mutate_room st h room = st\<lparr>rooms := (rooms st)(h \<mapsto> room)\<rparr>"

text \<open>
  \<^verbatim>\<open>handle_create_room\<close>.  \<^verbatim>\<open>data.get\<close> raises \<^verbatim>\<open>AttributeError\<close> on a body that is not a
  dict, \<^verbatim>\<open>len\<close> raises \<^verbatim>\<open>TypeError\<close> on a number or a bool, and the lookup in
  \<^verbatim>\<open>self.rooms\<close> raises \<^verbatim>\<open>TypeError\<close> on a list or a dict, which cannot be a key.  The key
  \<^verbatim>\<open>mode\<close> of the body is not read.
\<close>

definition handle_create_room ::
  "SOSRelay \<Rightarrow> str \<Rightarrow> json request_json \<Rightarrow> real \<Rightarrow> str \<Rightarrow> response \<times> SOSRelay" where
  "handle_create_room st ip body now uuid4 =
     (let (r, limiter) = RateLimiter_check (rate_limiter st) ip now;
          st1 = st\<lparr>rate_limiter := limiter\<rparr>
      in if \<not> fst r then ((429, RateLimitedBody (snd r)), st1)
         else case body of
           InvalidJson \<Rightarrow> ((400, ErrorBody ''invalid_json''), st1)
         | JsonBody data \<Rightarrow>
             (case data of
                JObject kvs \<Rightarrow>
                  let room_hash_value = dict_get kvs (lit ''room_hash'');
                      mode = lit ''fixed''
                  in if \<not> py_truthy room_hash_value
                     then ((400, ErrorBody ''invalid_room_hash''), st1)
                     else
                       (case py_len room_hash_value of
                          None \<Rightarrow> ((500, UnhandledError ''TypeError''), st1)
                        | Some n \<Rightarrow>
                            if n \<noteq> 16 then ((400, ErrorBody ''invalid_room_hash''), st1)
                            else if mode \<notin> set [lit ''fixed'']
                            then ((400, ErrorBody ''invalid_mode''), st1)
                            else
                              (case room_hash_value of
                                 JString h \<Rightarrow>
                                   (case get_room st1 h now of
                                      (Some existing, st2) \<Rightarrow> ((409, ErrorBody ''room_exists''), st2)
                                    | (None, st2) \<Rightarrow>
                                        let member_id = take 8 uuid4;
                                            room = \<lparr>room_hash = h, mode = mode, created_at = now,
                                                    expires_at = now + ROOM_TTL,
                                                    members = [(member_id, lit ''creator'')],
                                                    messages = []\<rparr>
                                        in ((200, CreatedBody h mode (created_at room) (expires_at room)
                                               member_id (map snd (members room))),
                                            save_room st2 room))
                               | _ \<Rightarrow> ((500, UnhandledError ''TypeError''), st1)))
              | _ \<Rightarrow> ((500, UnhandledError ''AttributeError''), st1)))"

definition handle_join_room ::
  "SOSRelay \<Rightarrow> str \<Rightarrow> str \<Rightarrow> join_body request_json \<Rightarrow> real \<Rightarrow> str \<Rightarrow> response \<times> SOSRelay" where
  "handle_join_room st ip h body now uuid4 =
     (case get_room st h now of
        (None, st1) \<Rightarrow> ((404, ErrorBody ''room_not_found''), st1)
      | (Some room, st1) \<Rightarrow>
          let data = (case body of InvalidJson \<Rightarrow> \<lparr>jb_nickname = None\<rparr> | JsonBody d \<Rightarrow> d);
              nickname = take 20 (case jb_nickname data of None \<Rightarrow> lit ''anon'' | Some n \<Rightarrow> n);
              member_id = take 8 uuid4;
              room' = room\<lparr>members := AList.update member_id nickname (members room)\<rparr>;
              st2 = save_room (mutate_room st1 h room') room';
              st3 = st2\<lparr>rate_limiter := RateLimiter_reset (rate_limiter st2) ip\<rparr>
          in ((200, JoinedBody h (mode room') (created_at room') (expires_at room') member_id
                 (map snd (members room')) (length (messages room'))
                 (if messages room' \<noteq> [] then timestamp (last (messages room')) else 0)),
              st3))"

text \<open>The message \<^verbatim>\<open>handle_send_message\<close> stores for a body with content \<open>c\<close>.\<close>

definition new_message :: "RoomData \<Rightarrow> send_body \<Rightarrow> str \<Rightarrow> real \<Rightarrow> str \<Rightarrow> MessageData" where
  "new_message room data c now uuid4 =
     (let sender0 = (case sb_sender data of None \<Rightarrow> lit ''anon'' | Some s \<Rightarrow> s);
          sender1 = (case sb_member_id data of
                       None \<Rightarrow> sender0
                     | Some m \<Rightarrow>
                         if m \<noteq> []
                         then (case map_of (members room) m of None \<Rightarrow> sender0 | Some n \<Rightarrow> n)
                         else sender0)
      in \<lparr>msg_id = take 12 uuid4, sender = sender1, content = c, timestamp = now\<rparr>)"

definition handle_send_message ::
  "SOSRelay \<Rightarrow> str \<Rightarrow> send_body request_json \<Rightarrow> real \<Rightarrow> str \<Rightarrow> response \<times> SOSRelay" where
  "handle_send_message st h body now uuid4 =
     (case get_room st h now of
        (None, st1) \<Rightarrow> ((404, ErrorBody ''room_not_found''), st1)
      | (Some room, st1) \<Rightarrow>
          (case body of
             InvalidJson \<Rightarrow> ((400, ErrorBody ''invalid_json''), st1)
           | JsonBody data \<Rightarrow>
               (case sb_content data of
                  None \<Rightarrow> ((400, ErrorBody ''missing_content''), st1)
                | Some c \<Rightarrow>
                    if c = [] then ((400, ErrorBody ''missing_content''), st1)
                    else
                      let msg = new_message room data c now uuid4;
                          appended = messages room @ [msg];
                          trimmed = (if length appended > MAX_MESSAGES
                                     then py_last MAX_MESSAGES appended else appended);
                          room' = room\<lparr>messages := trimmed\<rparr>
                      in ((200, SentBody (msg_id msg) (timestamp msg)),
                          save_room (mutate_room st1 h room') room'))))"

text \<open>
  \<^verbatim>\<open>handle_poll\<close>; \<open>since_param\<close> is the query parameter \<^verbatim>\<open>since\<close> already read as a
  number, \<open>None\<close> when it is absent.  The parameter \<^verbatim>\<open>member_id\<close> is read and not used.
\<close>

definition handle_poll :: "SOSRelay \<Rightarrow> str \<Rightarrow> real option \<Rightarrow> real \<Rightarrow> response \<times> SOSRelay" where
  "handle_poll st h since_param now =
     (case get_room st h now of
        (None, st1) \<Rightarrow> ((404, ErrorBody ''room_not_found''), st1)
      | (Some room, st1) \<Rightarrow>
          let since = (case since_param of None \<Rightarrow> 0 | Some s \<Rightarrow> s);
              msgs = filter (\<lambda>m. timestamp m > since) (messages room)
          in ((200, PollBody msgs (map snd (members room)) (expires_at room)
                 (length (messages room))),
              st1))"

text \<open>A client sending one request after another to one room: the responses and the final relay.\<close>

type_synonym send_request = "send_body request_json \<times> real \<times> str"

fun send_all :: "SOSRelay \<Rightarrow> str \<Rightarrow> send_request list \<Rightarrow> response list \<times> SOSRelay" where
  "send_all st h [] = ([], st)"
| "send_all st h ((body, now, uuid4) # reqs) =
     (let (resp, st') = handle_send_message st h body now uuid4;
          (resps, st'') = send_all st' h reqs
      in (resp # resps, st''))"

text \<open>
  The message a send request leaves in the log of a live room with the given roster, if it
  leaves one.
\<close>

fun stored_message :: "RoomData \<Rightarrow> send_request \<Rightarrow> MessageData option" where
  "stored_message room (body, now, uuid4) =
     (case body of
        InvalidJson \<Rightarrow> None
      | JsonBody data \<Rightarrow>
          (case sb_content data of
             None \<Rightarrow> None
           | Some c \<Rightarrow> if c = [] then None else Some (new_message room data c now uuid4)))"

text \<open>
  The checks on a create request as the specification words them: a fingerprint is exactly
  16 lowercase hexadecimal characters, a mode is one of the two known ones.
\<close>

definition spec_valid_room_hash :: "str \<Rightarrow> bool" where
  "spec_valid_room_hash h = (length h = 16 \<and> list_all (\<lambda>c. c \<in> set (lit ''0123456789abcdef'')) h)"

definition spec_valid_mode :: "str \<Rightarrow> bool" where
  "spec_valid_mode m = (m = lit ''rotating'' \<or> m = lit ''fixed'')"

subsection \<open>Concrete relay inputs\<close>

text \<open>Requests and states at which the results below are evaluated.\<close>

definition ip0 :: str where
  "ip0 = lit ''1.2.3.4''"

definition demo_hash :: str where
  "demo_hash = lit ''a1b2c3d4e5f6a7b8''"

definition demo_uuid :: str where
  "demo_uuid = lit ''123e4567-e89b-42d3-a456-426614174000''"

definition empty_relay :: SOSRelay where
  "empty_relay = \<lparr>rooms = Map.empty, rate_limiter = Map.empty\<rparr>"

definition demo_room :: RoomData where
  "demo_room = \<lparr>room_hash = demo_hash, mode = lit ''fixed'', created_at = 1000, expires_at = 4600,
     members = [(lit ''123e4567'', lit ''creator'')], messages = []\<rparr>"

definition demo_relay :: SOSRelay where
  "demo_relay = snd (handle_create_room empty_relay ip0
     (JsonBody (JObject [(lit ''room_hash'', JString demo_hash), (lit ''mode'', JString (lit ''rotating''))]))
     1000 demo_uuid)"

definition demo_sends :: "send_request list" where
  "demo_sends = map (\<lambda>i. (JsonBody \<lparr>sb_content = Some (lit ''QUJD''), sb_sender = Some (lit ''me''),
       sb_member_id = Some (lit ''123e4567'')\<rparr>, 1001 + real i, demo_uuid)) [0..<501]"

definition demo_three :: "send_request list" where
  "demo_three =
     [(JsonBody \<lparr>sb_content = Some (lit ''QQ==''), sb_sender = Some (lit ''me''), sb_member_id = None\<rparr>, 1001, demo_uuid),
      (JsonBody \<lparr>sb_content = Some (lit ''Qg==''), sb_sender = None, sb_member_id = Some (lit ''123e4567'')\<rparr>, 1002, demo_uuid),
      (JsonBody \<lparr>sb_content = Some (lit ''Qw==''), sb_sender = Some (lit ''me''), sb_member_id = None\<rparr>, 1003, demo_uuid)]"

definition demo_chat :: SOSRelay where
  "demo_chat = snd (send_all demo_relay demo_hash demo_three)"

section \<open>The client transport (src/chat/sos/transport.py)\<close>

datatype ConnectionState = DISCONNECTED | CONNECTING | CONNECTED | RECONNECTING | ERROR

text \<open>
  What the callbacks \<^verbatim>\<open>on_state_change\<close>, \<^verbatim>\<open>on_members_update\<close> and \<^verbatim>\<open>on_room_expire\<close>
  are called with.  The transport keeps the calls in \<open>notified\<close>, newest last; the
  callbacks themselves belong to the user interface.
\<close>

datatype notification = StateChange ConnectionState | MembersUpdate "str list" | RoomExpire

record queued_message =
  q_content :: str
  q_sender :: str
  queued_at :: real

text \<open>
  \<^verbatim>\<open>SOSTransport\<close>.  \<open>client\<close> tells whether \<^verbatim>\<open>self.client\<close> holds an HTTP client; the
  fields \<^verbatim>\<open>room_hash\<close> and \<^verbatim>\<open>member_id\<close> are \<open>t_room_hash\<close> and \<open>t_member_id\<close> here.
\<close>

record SOSTransport =
  state :: ConnectionState
  client :: bool
  t_room_hash :: "str option"
  t_member_id :: "str option"
  last_message_ts :: real
  pending_messages :: "queued_message list"
  backoff :: real
  notified :: "notification list"

record RoomState =
  rs_room_hash :: str
  rs_mode :: str
  rs_created_at :: real
  rs_expires_at :: real
  rs_members :: "str list"
  rs_message_count :: nat

text \<open>
  The outcome of one HTTP call: \<^verbatim>\<open>httpx.RequestError\<close> is raised, or a response arrives.
  A response carries its status code and the fields the transport reads from its JSON body
  (\<open>None\<close> for a key that is absent where the source uses \<^verbatim>\<open>data.get\<close>).  The transport's
  \<^verbatim>\<open>Message\<close> has the fields of the relay's message record.
\<close>

record http_response =
  status_code :: nat
  r_member_id :: "str option"
  r_mode :: str
  r_created_at :: real
  r_expires_at :: "real option"
  r_members :: "str list option"
  r_message_count :: "nat option"
  r_last_message_ts :: "real option"
  r_retry_after :: "int option"
  r_messages :: "MessageData list option"

datatype http_outcome = RequestError | Response http_response

text \<open>
  The exceptions the transport raises to its caller; \<open>KeyError\<close> is Python's, for a reply
  to create or join without \<^verbatim>\<open>expires_at\<close> (the keys \<^verbatim>\<open>mode\<close> and \<^verbatim>\<open>created_at\<close>, indexed
  the same way, are taken to be there).
\<close>

datatype transport_error = RateLimitError int | RoomNotFoundError | InvalidKeyError | KeyError

definition BACKOFF_INITIAL :: real where
  "BACKOFF_INITIAL = 1"

definition set_state :: "SOSTransport \<Rightarrow> ConnectionState \<Rightarrow> SOSTransport" where
  "set_state t s =
     (if state t \<noteq> s then t\<lparr>state := s, notified := notified t @ [StateChange s]\<rparr> else t)"

text \<open>
  \<^verbatim>\<open>connect\<close>; \<open>client_made\<close> tells whether \<^verbatim>\<open>_create_client\<close> returned a client rather
  than raising.
\<close>

definition connect :: "SOSTransport \<Rightarrow> bool \<Rightarrow> bool \<times> SOSTransport" where
  "connect t client_made =
     (let t1 = set_state t CONNECTING
      in if client_made
         then (True, (set_state (t1\<lparr>client := True\<rparr>) CONNECTED)\<lparr>backoff := BACKOFF_INITIAL\<rparr>)
         else (False, set_state t1 ERROR))"

text \<open>
  \<^verbatim>\<open>create_room\<close> and \<^verbatim>\<open>join_room\<close>.  The HTTP call is made only when a client is there
  or \<^verbatim>\<open>connect\<close> gives one; \<open>http\<close> is its outcome.
\<close>

definition create_room ::
  "SOSTransport \<Rightarrow> str \<Rightarrow> str \<Rightarrow> bool \<Rightarrow> http_outcome \<Rightarrow> (transport_error + RoomState option) \<times> SOSTransport" where
  "create_room t h mode_arg client_made http =
     (let (connected, t1) = (if \<not> client t then connect t client_made else (True, t))
      in if \<not> connected then (Inr None, t1)
         else case http of
           RequestError \<Rightarrow> (Inr None, set_state t1 RECONNECTING)
         | Response r \<Rightarrow>
             if status_code r = 200
             then
               let t2 = t1\<lparr>t_room_hash := Some h, t_member_id := r_member_id r\<rparr>
               in (case r_expires_at r of
                     None \<Rightarrow> (Inl KeyError, t2)
                   | Some e \<Rightarrow>
                       (Inr (Some \<lparr>rs_room_hash = h, rs_mode = r_mode r,
                                    rs_created_at = r_created_at r, rs_expires_at = e,
                                    rs_members = (case r_members r of None \<Rightarrow> [] | Some ms \<Rightarrow> ms),
                                    rs_message_count = 0\<rparr>),
                        t2))
             else if status_code r = 429
             then (Inl (RateLimitError (case r_retry_after r of None \<Rightarrow> 10 | Some n \<Rightarrow> n)), t1)
             else (Inr None, t1))"

definition join_room ::
  "SOSTransport \<Rightarrow> str \<Rightarrow> str \<Rightarrow> bool \<Rightarrow> http_outcome \<Rightarrow> (transport_error + RoomState option) \<times> SOSTransport" where
  "join_room t h nickname client_made http =
     (let (connected, t1) = (if \<not> client t then connect t client_made else (True, t))
      in if \<not> connected then (Inr None, t1)
         else case http of
           RequestError \<Rightarrow> (Inr None, set_state t1 RECONNECTING)
         | Response r \<Rightarrow>
             if status_code r = 200
             then
               let t2 = t1\<lparr>t_room_hash := Some h, t_member_id := r_member_id r,
                           last_message_ts := (case r_last_message_ts r of None \<Rightarrow> 0 | Some ts \<Rightarrow> ts)\<rparr>
               in (case r_expires_at r of
                     None \<Rightarrow> (Inl KeyError, t2)
                   | Some e \<Rightarrow>
                       (Inr (Some \<lparr>rs_room_hash = h, rs_mode = r_mode r,
                                    rs_created_at = r_created_at r, rs_expires_at = e,
                                    rs_members = (case r_members r of None \<Rightarrow> [] | Some ms \<Rightarrow> ms),
                                    rs_message_count = (case r_message_count r of None \<Rightarrow> 0 | Some n \<Rightarrow> n)\<rparr>),
                        t2))
             else if status_code r = 404 then (Inl RoomNotFoundError, t1)
             else if status_code r = 401 then (Inl InvalidKeyError, t1)
             else (Inr None, t1))"

text \<open>\<^verbatim>\<open>not self.room_hash\<close>: the field is \<^verbatim>\<open>None\<close> or the empty string.\<close>

definition no_room :: "SOSTransport \<Rightarrow> bool" where
  "no_room t = (case t_room_hash t of None \<Rightarrow> True | Some h \<Rightarrow> h = [])"

definition enqueue :: "SOSTransport \<Rightarrow> str \<Rightarrow> str \<Rightarrow> real \<Rightarrow> SOSTransport" where
  "enqueue t c s now =
     t\<lparr>pending_messages := pending_messages t @ [\<lparr>q_content = c, q_sender = s, queued_at = now\<rparr>]\<rparr>"

definition send_message ::
  "SOSTransport \<Rightarrow> str \<Rightarrow> str \<Rightarrow> real \<Rightarrow> http_outcome \<Rightarrow> bool \<times> SOSTransport" where
  "send_message t c s now http =
     (if no_room t then (False, t)
      else if \<not> client t \<or> state t \<noteq> CONNECTED then (False, enqueue t c s now)
      else case http of
        RequestError \<Rightarrow> (False, set_state (enqueue t c s now) RECONNECTING)
      | Response r \<Rightarrow> (status_code r = 200, t))"

definition poll_messages ::
  "SOSTransport \<Rightarrow> real \<Rightarrow> http_outcome \<Rightarrow> MessageData list \<times> SOSTransport" where
  "poll_messages t now http =
     (if no_room t \<or> \<not> client t then ([], t)
      else case http of
        RequestError \<Rightarrow> ([], set_state t RECONNECTING)
      | Response r \<Rightarrow>
          if status_code r = 200
          then
            let msgs = (case r_messages r of None \<Rightarrow> [] | Some ms \<Rightarrow> ms);
                t1 = (if msgs \<noteq> [] then t\<lparr>last_message_ts := Max (set (map timestamp msgs))\<rparr> else t);
                members_now = (case r_members r of None \<Rightarrow> [] | Some ms \<Rightarrow> ms);
                t2 = (if members_now \<noteq> [] then t1\<lparr>notified := notified t1 @ [MembersUpdate members_now]\<rparr> else t1);
                expiry = (case r_expires_at r of None \<Rightarrow> 0 | Some e \<Rightarrow> e);
                t3 = (if expiry \<noteq> 0 \<and> now > expiry then t2\<lparr>notified := notified t2 @ [RoomExpire]\<rparr> else t2)
            in (msgs, t3)
          else if status_code r = 404 then ([], t\<lparr>notified := notified t @ [RoomExpire]\<rparr>)
          else ([], t))"

text \<open>The three session fields the reconnection keeps.\<close>

definition session :: "SOSTransport \<Rightarrow> str option \<times> str option \<times> real" where
  "session t = (t_room_hash t, t_member_id t, last_message_ts t)"

subsection \<open>A concrete transport\<close>

definition demo_transport :: SOSTransport where
  "demo_transport = \<lparr>state = CONNECTED, client = True, t_room_hash = Some demo_hash,
     t_member_id = Some (lit ''123e4567''), last_message_ts = 1003, pending_messages = [],
     backoff = 1, notified = []\<rparr>"

section \<open>Bytes and UTF-8\<close>

type_synonym byte = "8 word"

type_synonym bytes = "byte list"

text \<open>The Python exceptions that the client's cryptographic code can meet.\<close>

datatype py_exception = UnicodeEncodeError | UnicodeDecodeError | CryptoError

text \<open>
  \<^verbatim>\<open>str.encode('utf-8')\<close>, on byte values first.  A surrogate has no encoding; neither has a
  number from 0x110000 on, which no Python string holds.
\<close>

definition is_scalar :: "nat \<Rightarrow> bool" where
  "is_scalar c = (c < 0x110000 \<and> \<not> (0xD800 \<le> c \<and> c \<le> 0xDFFF))"

definition unicode_text :: "str \<Rightarrow> bool" where
  "unicode_text s = list_all is_scalar s"

definition encode_cp :: "nat \<Rightarrow> nat list option" where
  "encode_cp c =
     (if c < 0x80 then Some [c]
      else if c < 0x800 then Some [0xC0 + c div 64, 0x80 + c mod 64]
      else if c < 0x10000 then
        (if 0xD800 \<le> c \<and> c \<le> 0xDFFF then None
         else Some [0xE0 + c div 4096, 0x80 + c div 64 mod 64, 0x80 + c mod 64])
      else if c < 0x110000 then
        Some [0xF0 + c div 262144, 0x80 + c div 4096 mod 64, 0x80 + c div 64 mod 64, 0x80 + c mod 64]
      else None)"

fun utf8_encode_nat :: "str \<Rightarrow> nat list option" where
  "utf8_encode_nat [] = Some []"
| "utf8_encode_nat (c # cs) =
     (case encode_cp c of
        None \<Rightarrow> None
      | Some bs \<Rightarrow> (case utf8_encode_nat cs of None \<Rightarrow> None | Some rest \<Rightarrow> Some (bs @ rest)))"

definition utf8_encode :: "str \<Rightarrow> py_exception + bytes" where
  "utf8_encode s =
     (case utf8_encode_nat s of None \<Rightarrow> Inl UnicodeEncodeError | Some ns \<Rightarrow> Inr (map of_nat ns))"

text \<open>
  \<^verbatim>\<open>bytes.decode('utf-8')\<close>, strict: overlong forms, surrogates, values from 0x110000 on,
  stray continuation bytes and truncated sequences are errors.
\<close>

definition continuation :: "nat \<Rightarrow> bool" where
  "continuation b = (0x80 \<le> b \<and> b < 0xC0)"

fun utf8_decode_nat :: "nat list \<Rightarrow> str option" where
  "utf8_decode_nat [] = Some []"
| "utf8_decode_nat (b0 # bs) =
     (if b0 < 0x80 then (case utf8_decode_nat bs of None \<Rightarrow> None | Some cs \<Rightarrow> Some (b0 # cs))
      else if 0xC2 \<le> b0 \<and> b0 < 0xE0 then
        (case bs of
           b1 # r \<Rightarrow>
             if continuation b1
             then (case utf8_decode_nat r of
                     None \<Rightarrow> None
                   | Some cs \<Rightarrow> Some (((b0 - 0xC0) * 64 + (b1 - 0x80)) # cs))
             else None
         | _ \<Rightarrow> None)
      else if 0xE0 \<le> b0 \<and> b0 < 0xF0 then
        (case bs of
           b1 # b2 # r \<Rightarrow>
             let c = (b0 - 0xE0) * 4096 + (b1 - 0x80) * 64 + (b2 - 0x80)
             in if continuation b1 \<and> continuation b2 \<and> 0x800 \<le> c \<and> \<not> (0xD800 \<le> c \<and> c \<le> 0xDFFF)
                then (case utf8_decode_nat r of None \<Rightarrow> None | Some cs \<Rightarrow> Some (c # cs))
                else None
         | _ \<Rightarrow> None)
      else if 0xF0 \<le> b0 \<and> b0 < 0xF5 then
        (case bs of
           b1 # b2 # b3 # r \<Rightarrow>
             let c = (b0 - 0xF0) * 262144 + (b1 - 0x80) * 4096 + (b2 - 0x80) * 64 + (b3 - 0x80)
             in if continuation b1 \<and> continuation b2 \<and> continuation b3 \<and> 0x10000 \<le> c \<and> c < 0x110000
                then (case utf8_decode_nat r of None \<Rightarrow> None | Some cs \<Rightarrow> Some (c # cs))
                else None
         | _ \<Rightarrow> None)
      else None)"

definition utf8_decode :: "bytes \<Rightarrow> py_exception + str" where
  "utf8_decode bs =
     (case utf8_decode_nat (map unat bs) of None \<Rightarrow> Inl UnicodeDecodeError | Some s \<Rightarrow> Inr s)"

text \<open>\<^verbatim>\<open>str(n)\<close> for an integer: decimal digits, a minus sign before a negative one.\<close>

fun digits :: "nat \<Rightarrow> str" where
  "digits n = (if n < 10 then [48 + n] else digits (n div 10) @ [48 + n mod 10])"

declare digits.simps [simp del]

definition py_str_int :: "int \<Rightarrow> str" where
  "py_str_int i = (if i < 0 then 45 # digits (nat (- i)) else digits (nat i))"

section \<open>The cryptographic core (src/chat/sos/crypto.py)\<close>

text \<open>
  The library functions the module calls, as parameters: \<^verbatim>\<open>hashlib.sha256(..).digest()\<close>,
  \<^verbatim>\<open>argon2.low_level.hash_secret_raw\<close> with \<^verbatim>\<open>time_cost=2, memory_cost=65536,
  parallelism=1, type=Type.ID\<close> (arguments: secret, salt, hash length), and libsodium's
  \<^verbatim>\<open>crypto_secretbox\<close> and \<^verbatim>\<open>crypto_secretbox_open\<close> (arguments: message or ciphertext,
  nonce, key; opening gives \<open>None\<close> when the tag does not verify).
\<close>

record primitives =
  sha256 :: "bytes \<Rightarrow> bytes"
  argon2id :: "bytes \<Rightarrow> bytes \<Rightarrow> nat \<Rightarrow> bytes"
  crypto_secretbox :: "bytes \<Rightarrow> bytes \<Rightarrow> bytes \<Rightarrow> bytes"
  crypto_secretbox_open :: "bytes \<Rightarrow> bytes \<Rightarrow> bytes \<Rightarrow> bytes option"

text \<open>
  What the libraries document: a SHA-256 digest has 32 bytes, Argon2 returns as many bytes
  as asked for, and a box sealed under a 32-byte key and a 24-byte nonce opens under the
  same key and nonce to the message.
\<close>

definition primitives_ok :: "primitives \<Rightarrow> bool" where
  "primitives_ok P =
     ((\<forall>x. length (sha256 P x) = 32) \<and>
      (\<forall>secret salt n. length (argon2id P secret salt n) = n) \<and>
      (\<forall>m nonce k. length nonce = 24 \<and> length k = 32 \<longrightarrow>
         crypto_secretbox_open P (crypto_secretbox P m nonce k) nonce k = Some m))"

record RoomCredentials =
  room_id :: str
  emojis :: "str list"
  cred_mode :: str
  cred_created_at :: real
  fixed_pin :: "str option"

text \<open>
  \<^verbatim>\<open>get_current_pin\<close>.  \<open>now\<close> is the clock reading and \<open>fresh_pin\<close> what \<^verbatim>\<open>generate_pin()\<close>
  would return.  The first six hexadecimal digits of the digest are the nibbles of its first
  three bytes.
\<close>

definition hex_nibbles :: "bytes \<Rightarrow> nat list" where
  "hex_nibbles bs = concat (map (\<lambda>b. [unat b div 16, unat b mod 16]) bs)"

definition get_current_pin :: "primitives \<Rightarrow> RoomCredentials \<Rightarrow> real \<Rightarrow> str \<Rightarrow> py_exception + str" where
  "get_current_pin P creds now fresh_pin =
     (if cred_mode creds = lit ''fixed''
      then Inr (case fixed_pin creds of None \<Rightarrow> fresh_pin | Some p \<Rightarrow> if p = [] then fresh_pin else p)
      else
        let bucket = \<lfloor>now / 15\<rfloor>
        in case utf8_encode (room_id creds @ lit '':'' @ py_str_int bucket) of
             Inl e \<Rightarrow> Inl e
           | Inr seed \<Rightarrow> Inr (map (\<lambda>n. 48 + n mod 10) (take 6 (hex_nibbles (sha256 P seed)))))"

text \<open>
  The string \<^verbatim>\<open>derive_room_key\<close> hashes into the salt.  \<^verbatim>\<open>if timestamp:\<close> holds for a
  timestamp that is given and is not zero.
\<close>

definition salt_input :: "str list \<Rightarrow> real option \<Rightarrow> str" where
  "salt_input emoji_list timestamp_arg =
     lit ''sos-chat-v1:'' @ concat emoji_list @
       (case timestamp_arg of
          None \<Rightarrow> []
        | Some ts \<Rightarrow> if ts \<noteq> 0 then lit '':'' @ py_str_int (py_int ts) else [])"

definition room_salt :: "primitives \<Rightarrow> str list \<Rightarrow> real option \<Rightarrow> py_exception + bytes" where
  "room_salt P emoji_list timestamp_arg =
     (case utf8_encode (salt_input emoji_list timestamp_arg) of
        Inl e \<Rightarrow> Inl e
      | Inr hashed \<Rightarrow> Inr (take 16 (sha256 P hashed)))"

definition derive_room_key ::
  "primitives \<Rightarrow> str list \<Rightarrow> str \<Rightarrow> real option \<Rightarrow> py_exception + bytes" where
  "derive_room_key P emoji_list pin timestamp_arg =
     (case utf8_encode (concat emoji_list @ lit '':'' @ pin) of
        Inl e \<Rightarrow> Inl e
      | Inr password \<Rightarrow>
          (case room_salt P emoji_list timestamp_arg of
             Inl e \<Rightarrow> Inl e
           | Inr salt \<Rightarrow> Inr (argon2id P password salt 32)))"

definition get_encryption_key ::
  "primitives \<Rightarrow> RoomCredentials \<Rightarrow> str \<Rightarrow> real \<Rightarrow> py_exception + bytes" where
  "get_encryption_key P creds pin now =
     (if cred_mode creds = lit ''fixed''
      then derive_room_key P (emojis creds) pin (Some (cred_created_at creds))
      else derive_room_key P (emojis creds) pin (Some (of_int (\<lfloor>now / 15\<rfloor> * 15))))"

text \<open>
  PyNaCl's \<^verbatim>\<open>SecretBox\<close>, as documented: the constructor wants a key of 32 bytes,
  \<^verbatim>\<open>encrypt\<close> a nonce of 24 bytes and returns the nonce followed by the sealed box,
  \<^verbatim>\<open>decrypt\<close> takes the first 24 bytes as the nonce and opens the rest.  What they raise
  (\<^verbatim>\<open>nacl.exceptions.ValueError\<close>, \<^verbatim>\<open>CryptoError\<close>) is a \<^verbatim>\<open>CryptoError\<close>.
\<close>

definition KEY_SIZE :: nat where
  "KEY_SIZE = 32"

definition NONCE_SIZE :: nat where
  "NONCE_SIZE = 24"

definition SecretBox_encrypt :: "primitives \<Rightarrow> bytes \<Rightarrow> bytes \<Rightarrow> bytes \<Rightarrow> py_exception + bytes" where
  "SecretBox_encrypt P key plaintext nonce =
     (if length nonce \<noteq> NONCE_SIZE then Inl CryptoError
      else Inr (nonce @ crypto_secretbox P plaintext nonce key))"

definition SecretBox_decrypt :: "primitives \<Rightarrow> bytes \<Rightarrow> bytes \<Rightarrow> py_exception + bytes" where
  "SecretBox_decrypt P key ciphertext =
     (let nonce = take NONCE_SIZE ciphertext; boxed = drop NONCE_SIZE ciphertext
      in if length nonce \<noteq> NONCE_SIZE then Inl CryptoError
         else case crypto_secretbox_open P boxed nonce key of
                None \<Rightarrow> Inl CryptoError
              | Some plaintext \<Rightarrow> Inr plaintext)"

text \<open>\<^verbatim>\<open>encrypt_message\<close>; \<open>nonce\<close> is what \<^verbatim>\<open>nacl_random(SecretBox.NONCE_SIZE)\<close> returns.\<close>

definition encrypt_message :: "primitives \<Rightarrow> str \<Rightarrow> bytes \<Rightarrow> bytes \<Rightarrow> py_exception + bytes" where
  "encrypt_message P message key nonce =
     (if length key \<noteq> KEY_SIZE then Inl CryptoError
      else case utf8_encode message of
             Inl e \<Rightarrow> Inl e
           | Inr plaintext \<Rightarrow> SecretBox_encrypt P key plaintext nonce)"

text \<open>
  \<^verbatim>\<open>decrypt_message\<close>: \<^verbatim>\<open>except CryptoError\<close> turns a failure of the box into \<^verbatim>\<open>None\<close>; an
  error of \<^verbatim>\<open>decode\<close> is not a \<^verbatim>\<open>CryptoError\<close> and leaves the function.
\<close>

definition decrypt_message :: "primitives \<Rightarrow> bytes \<Rightarrow> bytes \<Rightarrow> py_exception + str option" where
  "decrypt_message P encrypted key =
     (if length key \<noteq> KEY_SIZE then Inr None
      else case SecretBox_decrypt P key encrypted of
             Inl CryptoError \<Rightarrow> Inr None
           | Inl e \<Rightarrow> Inl e
           | Inr decrypted \<Rightarrow>
               (case utf8_decode decrypted of Inl e \<Rightarrow> Inl e | Inr message \<Rightarrow> Inr (Some message)))"

text \<open>\<^verbatim>\<open>try_decrypt_rotating\<close>: the current bucket only.\<close>

definition try_decrypt_rotating ::
  "primitives \<Rightarrow> bytes \<Rightarrow> RoomCredentials \<Rightarrow> real \<Rightarrow> str \<Rightarrow> py_exception + (str \<times> str) option" where
  "try_decrypt_rotating P encrypted creds now fresh_pin =
     (case get_current_pin P creds now fresh_pin of
        Inl e \<Rightarrow> Inl e
      | Inr current_pin \<Rightarrow>
          (case get_encryption_key P creds current_pin now of
             Inl e \<Rightarrow> Inl e
           | Inr key \<Rightarrow>
               (case decrypt_message P encrypted key of
                  Inl e \<Rightarrow> Inl e
                | Inr None \<Rightarrow> Inr None
                | Inr (Some msg) \<Rightarrow> if msg \<noteq> [] then Inr (Some (msg, current_pin)) else Inr None)))"

subsection \<open>Concrete cryptographic inputs\<close>

text \<open>
  Stand-ins for the library functions, of the documented shapes: a 32-byte digest, a key of
  the length asked for, a box that carries a 16-byte tag and opens under the key that sealed
  it.  They are not the real algorithms; they serve to run the module at concrete values.
\<close>

definition demo_sha256 :: "bytes \<Rightarrow> bytes" where
  "demo_sha256 bs = take 32 (rev bs @ replicate 32 0)"

definition demo_argon2id :: "bytes \<Rightarrow> bytes \<Rightarrow> nat \<Rightarrow> bytes" where
  "demo_argon2id secret salt n = take n (salt @ secret @ replicate n 0)"

definition demo_secretbox :: "bytes \<Rightarrow> bytes \<Rightarrow> bytes \<Rightarrow> bytes" where
  "demo_secretbox m nonce k = take 16 (k @ replicate 16 0) @ m"

definition demo_secretbox_open :: "bytes \<Rightarrow> bytes \<Rightarrow> bytes \<Rightarrow> bytes option" where
  "demo_secretbox_open c nonce k =
     (if 16 \<le> length c \<and> take 16 c = take 16 (k @ replicate 16 0) then Some (drop 16 c) else None)"

definition demo_primitives :: primitives where
  "demo_primitives = \<lparr>sha256 = demo_sha256, argon2id = demo_argon2id,
     crypto_secretbox = demo_secretbox, crypto_secretbox_open = demo_secretbox_open\<rparr>"

definition demo_emojis :: "str list" where
  "demo_emojis = [[0x1F525], [0x1F319], [0x2B50], [0x1F3AF], [0x1F30A], [0x1F48E]]"

definition demo_pin :: str where
  "demo_pin = lit ''123456''"

definition demo_nonce :: bytes where
  "demo_nonce = replicate 24 7"

definition demo_key :: bytes where
  "demo_key = (case derive_room_key demo_primitives demo_emojis demo_pin (Some 1005) of
                 Inl e \<Rightarrow> [] | Inr k \<Rightarrow> k)"

text \<open>
  The salt's input as the specification words it, for an integer anchor: the prefix, the
  emojis, a colon and the anchor in decimal, whatever the anchor is.
\<close>

definition spec_salt_input :: "str list \<Rightarrow> int \<Rightarrow> str" where
  "spec_salt_input emoji_list anchor =
     lit ''sos-chat-v1:'' @ concat emoji_list @ lit '':'' @ py_str_int anchor"

section \<open>The session controller (src/src/sos/app.py)\<close>

text \<open>
  What \<^verbatim>\<open>ChatRoomScreen._on_message_received\<close> writes to the chat log: a message with its
  sender and server timestamp, or one of the three notices.
\<close>

datatype log_line =
    MessageLine str real str
  | KeyMismatchLine
  | UndecryptableLine
  | FailedLine

record ChatRoomScreen =
  encryption_key :: "bytes option"
  credentials :: RoomCredentials
  chat_log :: "log_line list"

text \<open>\<^verbatim>\<open>if decrypted:\<close> holds for a string that is there and is not empty.\<close>

definition plain :: "str option \<Rightarrow> str option" where
  "plain decrypted = (case decrypted of None \<Rightarrow> None | Some s \<Rightarrow> if s \<noteq> [] then Some s else None)"

definition log_write :: "ChatRoomScreen \<Rightarrow> log_line \<Rightarrow> ChatRoomScreen" where
  "log_write scr line = scr\<lparr>chat_log := chat_log scr @ [line]\<rparr>"

text \<open>
  Showing a message is \<^verbatim>\<open>time.strftime("%H:%M", time.localtime(msg.timestamp))\<close> followed
  by \<^verbatim>\<open>log.write\<close> of a line of markup that holds the sender and the text.  Both run inside
  the \<^verbatim>\<open>try\<close> and either can raise: \<^verbatim>\<open>localtime\<close> on a timestamp outside the platform's
  range, \<^verbatim>\<open>write\<close> on a sender or a text that is not well-formed markup.  A \<open>display\<close>
  tells, for a sender, a timestamp and a text, whether both return.  The three notices are
  constant lines and are taken to be written.
\<close>

type_synonym display = "str \<Rightarrow> real \<Rightarrow> str \<Rightarrow> bool"

definition show_message :: "display \<Rightarrow> ChatRoomScreen \<Rightarrow> MessageData \<Rightarrow> str \<Rightarrow> ChatRoomScreen" where
  "show_message shown scr msg text =
     (if shown (sender msg) (timestamp msg) text
      then log_write scr (MessageLine (sender msg) (timestamp msg) text)
      else log_write scr FailedLine)"

text \<open>
  \<^verbatim>\<open>_on_message_received\<close>.  \<open>decoded\<close> is the result of \<^verbatim>\<open>base64.b64decode(msg.content)\<close>,
  \<open>None\<close> when it raises; \<open>now\<close> and \<open>fresh_pin\<close> are as in \<^verbatim>\<open>get_current_pin\<close>.  Every
  exception inside the \<^verbatim>\<open>try\<close> ends in the notice \<open>FailedLine\<close>; in the second attempt the
  new key is stored before the message is shown, and stays when showing it raises.
\<close>

definition on_message_received ::
  "primitives \<Rightarrow> display \<Rightarrow> ChatRoomScreen \<Rightarrow> MessageData \<Rightarrow> bytes option \<Rightarrow> real \<Rightarrow> str \<Rightarrow>
     ChatRoomScreen" where
  "on_message_received P shown scr msg decoded now fresh_pin =
     (if sender msg = lit ''me'' then scr
      else case encryption_key scr of
        None \<Rightarrow> scr
      | Some key \<Rightarrow>
          if key = [] then scr
          else case decoded of
            None \<Rightarrow> log_write scr FailedLine
          | Some encrypted \<Rightarrow>
              (case decrypt_message P encrypted key of
                 Inl e \<Rightarrow> log_write scr FailedLine
               | Inr decrypted \<Rightarrow>
                   (case plain decrypted of
                      Some text \<Rightarrow> show_message shown scr msg text
                    | None \<Rightarrow>
                        if cred_mode (credentials scr) = lit ''rotating''
                        then
                          (case get_current_pin P (credentials scr) now fresh_pin of
                             Inl e \<Rightarrow> log_write scr FailedLine
                           | Inr current_pin \<Rightarrow>
                               (case get_encryption_key P (credentials scr) current_pin now of
                                  Inl e \<Rightarrow> log_write scr FailedLine
                                | Inr new_key \<Rightarrow>
                                    (case decrypt_message P encrypted new_key of
                                       Inl e \<Rightarrow> log_write scr FailedLine
                                     | Inr decrypted2 \<Rightarrow>
                                         (case plain decrypted2 of
                                            Some text \<Rightarrow>
                                              show_message shown
                                                (scr\<lparr>encryption_key := Some new_key\<rparr>) msg text
                                          | None \<Rightarrow> log_write scr KeyMismatchLine))))
                        else log_write scr UndecryptableLine)))"

text \<open>
  The key in force in bucket \<open>b\<close> of a room: the bucket's PIN and the anchor \<open>15 b\<close>, as
  \<^verbatim>\<open>get_current_pin\<close> and \<^verbatim>\<open>get_encryption_key\<close> compute them at an instant of that bucket.
\<close>

definition bucket_key :: "primitives \<Rightarrow> RoomCredentials \<Rightarrow> int \<Rightarrow> py_exception + bytes" where
  "bucket_key P creds b =
     (case get_current_pin P creds (of_int b * 15) [] of
        Inl e \<Rightarrow> Inl e
      | Inr pin \<Rightarrow> get_encryption_key P creds pin (of_int b * 15))"

text \<open>
  The decryption strategy as the specification words it: the keys of the current, the
  previous and the next bucket, in that order; the first that yields a text wins.
\<close>

definition spec_try_keys :: "primitives \<Rightarrow> RoomCredentials \<Rightarrow> bytes \<Rightarrow> real \<Rightarrow> str option" where
  "spec_try_keys P creds encrypted now =
     (let b = \<lfloor>now / 15\<rfloor>;
          attempt = (\<lambda>k. case bucket_key P creds k of
                            Inl e \<Rightarrow> None
                          | Inr key \<Rightarrow> (case decrypt_message P encrypted key of
                                          Inl e \<Rightarrow> None | Inr d \<Rightarrow> plain d))
      in case attempt b of
           Some text \<Rightarrow> Some text
         | None \<Rightarrow> (case attempt (b - 1) of Some text \<Rightarrow> Some text | None \<Rightarrow> attempt (b + 1)))"

subsection \<open>A concrete session\<close>

definition demo_creds :: RoomCredentials where
  "demo_creds = \<lparr>room_id = concat demo_emojis, emojis = demo_emojis, cred_mode = lit ''rotating'',
     cred_created_at = 900, fixed_pin = None\<rparr>"

text \<open>A message encrypted at 1000 s, in bucket 66, and a receiver at 1006 s, in bucket 67.\<close>

definition demo_key_66 :: bytes where
  "demo_key_66 = (case bucket_key demo_primitives demo_creds 66 of Inl e \<Rightarrow> [] | Inr k \<Rightarrow> k)"

definition demo_key_67 :: bytes where
  "demo_key_67 = (case bucket_key demo_primitives demo_creds 67 of Inl e \<Rightarrow> [] | Inr k \<Rightarrow> k)"

definition demo_ciphertext :: bytes where
  "demo_ciphertext =
     (case encrypt_message demo_primitives (lit ''hi'') demo_key_66 demo_nonce of
        Inl e \<Rightarrow> [] | Inr c \<Rightarrow> c)"

definition demo_screen :: ChatRoomScreen where
  "demo_screen = \<lparr>encryption_key = Some demo_key_67, credentials = demo_creds, chat_log = []\<rparr>"

text \<open>
  A stand-in for the display: it formats the timestamps of a signed 32-bit clock and writes
  every line.
\<close>

definition demo_display :: display where
  "demo_display sender_name ts text = (0 \<le> ts \<and> ts < 2147483648)"

definition demo_inbound :: MessageData where
  "demo_inbound = \<lparr>msg_id = take 12 demo_uuid, sender = lit ''anon'', content = lit ''(base64)'',
     timestamp = 1000\<rparr>"

section \<open>Rate limiter: properties\<close>

lemma delays_len: "length RATE_LIMIT_DELAYS = 6"
  by (simp add: RATE_LIMIT_DELAYS_def)

lemma check_allowed_iff:
  "fst (fst (RateLimiter_check attempts ip now)) =
     (case attempts ip of
        None \<Rightarrow> True
      | Some data \<Rightarrow> now - last_attempt data > RATE_LIMIT_COOLDOWN \<or>
          real (RATE_LIMIT_DELAYS ! min (count data) 5) \<le> now - last_attempt data)"
  by (simp add: RateLimiter_check_def delays_len Let_def split: option.split)

lemma check_entry_after:
  "snd (RateLimiter_check attempts ip now) ip =
     (case attempts ip of
        None \<Rightarrow> Some \<lparr>count = 0, last_attempt = now\<rparr>
      | Some data \<Rightarrow>
          if now - last_attempt data > RATE_LIMIT_COOLDOWN then Some \<lparr>count = 0, last_attempt = now\<rparr>
          else if real (RATE_LIMIT_DELAYS ! min (count data) 5) \<le> now - last_attempt data
          then Some \<lparr>count = count data + 1, last_attempt = now\<rparr>
          else Some data)"
  by (simp add: RateLimiter_check_def delays_len Let_def split: option.split)

text \<open>
  After a run of permitted attempts inside one window the counter has grown by the length
  of the run.
\<close>

lemma check_all_count:
  assumes "attempts ip = Some \<lparr>count = c, last_attempt = t0\<rparr>"
    and "within_cooldown (t0 # ts)"
    and "\<forall>ok \<in> set (fst (check_all attempts ip ts)). ok"
  shows "snd (check_all attempts ip ts) ip = Some \<lparr>count = c + length ts, last_attempt = last (t0 # ts)\<rparr>"
  using assms
proof (induction ts arbitrary: attempts c t0)
  case Nil
  then show ?case by simp
next
  case (Cons t ts)
  obtain r a' where r: "RateLimiter_check attempts ip t = (r, a')" by (cases "RateLimiter_check attempts ip t")
  have gap: "\<not> t - t0 > RATE_LIMIT_COOLDOWN" using Cons.prems(2) by simp
  have ok: "fst r" using Cons.prems(3) r by (simp split: prod.splits)
  have "fst (fst (RateLimiter_check attempts ip t))" using ok r by simp
  then have d: "real (RATE_LIMIT_DELAYS ! min c 5) \<le> t - t0"
    using gap Cons.prems(1) by (simp add: check_allowed_iff)
  have a': "a' ip = Some \<lparr>count = c + 1, last_attempt = t\<rparr>"
    using check_entry_after[of attempts ip t] r gap d Cons.prems(1) by simp
  have w: "within_cooldown (t # ts)" using Cons.prems(2) by simp
  have oks: "\<forall>ok \<in> set (fst (check_all a' ip ts)). ok"
    using Cons.prems(3) r by (auto split: prod.splits)
  from Cons.IH[OF a' w oks] show ?case
    using r by (auto split: prod.splits)
qed

lemma opens_window_first:
  assumes "opens_window attempts ip t1"
  shows "RateLimiter_check attempts ip t1 = ((True, 0), attempts(ip \<mapsto> \<lparr>count = 0, last_attempt = t1\<rparr>))"
  using assms by (auto simp: opens_window_def RateLimiter_check_def split: option.splits)

lemma reset_entry: "RateLimiter_reset attempts ip ip = None"
  by (auto simp: RateLimiter_reset_def)

lemma join_resets_limiter:
  assumes "fst (fst (handle_join_room st ip h body now u)) = 200"
  shows "rate_limiter (snd (handle_join_room st ip h body now u)) =
           RateLimiter_reset (rate_limiter st) ip"
  using assms
  by (auto simp: handle_join_room_def get_room_def save_room_def mutate_room_def Let_def
      split: option.splits if_splits)

text \<open>
  Claim C3, as the code has it.  A window opens with an attempt from an IP that has no entry
  or whose last permitted attempt lies more than 1800 s back; that attempt is permitted and
  sets the counter to 0.  When the attempts \<open>t1 # ts\<close> of the window were all permitted,
  the next one, the k-th, at \<open>t\<close> (not before the last one and at most 1800 s after it) is
  permitted iff \<open>k \<le> 2\<close> or the gap since the (k-1)-th is at least
  \<open>table[min(k - 2, 5)]\<close>.  A successful join leaves the limiter reset for that IP: the
  entry is gone and the next attempt is permitted whatever the gap.
\<close>

theorem rate_limiter_kth_attempt:
  assumes "opens_window attempts ip t1"
    and "within_cooldown (t1 # ts)"
    and "list_all (\<lambda>ok. ok) (fst (check_all attempts ip (t1 # ts)))"
    and "last (t1 # ts) \<le> t" and "t - last (t1 # ts) \<le> RATE_LIMIT_COOLDOWN"
    and "k = length (t1 # ts) + 1"
    and "after = snd (check_all attempts ip (t1 # ts))"
  shows "fst (fst (RateLimiter_check attempts ip t1)) \<and>
         (fst (fst (RateLimiter_check after ip t)) \<longleftrightarrow>
            (k \<le> 2 \<or> real (RATE_LIMIT_DELAYS ! min (k - 2) 5) \<le> t - last (t1 # ts))) \<and>
         (fst (fst (handle_join_room st ip h body t' u)) = 200 \<longrightarrow>
            rate_limiter (snd (handle_join_room st ip h body t' u)) =
              RateLimiter_reset (rate_limiter st) ip) \<and>
         RateLimiter_reset after ip ip = None \<and>
         fst (RateLimiter_check (RateLimiter_reset after ip) ip t') = (True, 0)"
proof -
  let ?a1 = "attempts(ip \<mapsto> \<lparr>count = 0, last_attempt = t1\<rparr>)"
  have first: "RateLimiter_check attempts ip t1 = ((True, 0), ?a1)"
    using assms(1) by (rule opens_window_first)
  have run: "check_all attempts ip (t1 # ts) = (True # fst (check_all ?a1 ip ts), snd (check_all ?a1 ip ts))"
    by (simp add: first split: prod.splits)
  have oks: "\<forall>ok \<in> set (fst (check_all ?a1 ip ts)). ok"
    using assms(3) unfolding run by (simp add: list_all_iff)
  have entry: "after ip = Some \<lparr>count = 0 + length ts, last_attempt = last (t1 # ts)\<rparr>"
    unfolding assms(7) run snd_conv
    by (rule check_all_count[OF _ assms(2) oks]) simp
  have k: "k - 2 = length ts" using assms(6) by simp
  have "fst (fst (RateLimiter_check after ip t)) \<longleftrightarrow>
          real (RATE_LIMIT_DELAYS ! min (length ts) 5) \<le> t - last (t1 # ts)"
    using entry assms(5) by (simp add: check_allowed_iff)
  moreover have "k \<le> 2 \<Longrightarrow> real (RATE_LIMIT_DELAYS ! min (length ts) 5) \<le> t - last (t1 # ts)"
    using assms(4,6) by (simp add: RATE_LIMIT_DELAYS_def)
  ultimately have kth: "fst (fst (RateLimiter_check after ip t)) \<longleftrightarrow>
            (k \<le> 2 \<or> real (RATE_LIMIT_DELAYS ! min (k - 2) 5) \<le> t - last (t1 # ts))"
    unfolding k by blast
  have "fst (RateLimiter_check (RateLimiter_reset after ip) ip t') = (True, 0)"
    by (simp add: RateLimiter_check_def reset_entry)
  with kth first show ?thesis by (simp add: reset_entry join_resets_limiter)
qed

lemma run3: "check_all Map.empty ip0 [1000, 1001, 1011] =
   ([True, True, True], [ip0 \<mapsto> \<lparr>count = 2, last_attempt = 1011\<rparr>])"
  by (simp add: RateLimiter_check_def RATE_LIMIT_DELAYS_def RATE_LIMIT_COOLDOWN_def numeral_2_eq_2)

text \<open>
  Attempts at 1000, 1001 and 1011 are permitted; the fourth needs a gap of 30 s: permitted at
  1041, denied at 1040.
\<close>

theorem rate_limiter_kth_attempt_witness:
  "opens_window Map.empty ip0 1000 \<and> within_cooldown [1000, 1001, 1011] \<and>
   fst (check_all Map.empty ip0 [1000, 1001, 1011]) = [True, True, True] \<and>
   fst (fst (RateLimiter_check (snd (check_all Map.empty ip0 [1000, 1001, 1011])) ip0 1041)) \<and>
   \<not> fst (fst (RateLimiter_check (snd (check_all Map.empty ip0 [1000, 1001, 1011])) ip0 1040)) \<and>
   fst (RateLimiter_check (RateLimiter_reset (snd (check_all Map.empty ip0 [1000, 1001, 1011])) ip0) ip0 1012) = (True, 0)"
proof -
  have h1: "opens_window Map.empty ip0 1000" by (simp add: opens_window_def)
  have h2: "within_cooldown [1000, 1001, 1011]" by (simp add: RATE_LIMIT_COOLDOWN_def)
  have h3: "list_all (\<lambda>ok. ok) (fst (check_all Map.empty ip0 [1000, 1001, 1011]))"
    unfolding run3 by simp
  have d: "RATE_LIMIT_DELAYS ! min (4 - 2) 5 = 30" by (simp add: RATE_LIMIT_DELAYS_def)
  note T = rate_limiter_kth_attempt[OF h1 h2 h3, where k = 4 and after = "snd (check_all Map.empty ip0 [1000, 1001, 1011])"]
  have a: "fst (fst (RateLimiter_check (snd (check_all Map.empty ip0 [1000, 1001, 1011])) ip0 1041))"
    using T[of 1041] d by (simp add: RATE_LIMIT_COOLDOWN_def)
  have b: "\<not> fst (fst (RateLimiter_check (snd (check_all Map.empty ip0 [1000, 1001, 1011])) ip0 1040))"
    using T[of 1040] d by (simp add: RATE_LIMIT_COOLDOWN_def)
  have c: "fst (RateLimiter_check (RateLimiter_reset (snd (check_all Map.empty ip0 [1000, 1001, 1011])) ip0) ip0 1012) = (True, 0)"
    using T[of 1041 _ _ _ 1012] by (simp add: RATE_LIMIT_COOLDOWN_def)
  show ?thesis using h1 h2 a b c unfolding run3 by simp
qed

text \<open>
  The rule as the specification words it fails on the code: the second attempt 1 s after the
  first is permitted, and so is the third 10 s after the second, where the specification's
  rule asks for more than 10 s and more than 30 s.  The third attempt also shows that a gap
  equal to the delay is enough.
\<close>

theorem rate_limiter_spec_counterexample:
  "fst (check_all Map.empty ip0 [1000, 1001, 1011]) = [True, True, True] \<and>
   \<not> spec_kth_permitted 2 (1001 - 1000) \<and>
   \<not> spec_kth_permitted 3 (1011 - 1001) \<and>
   \<not> (1011 - 1001 > real (RATE_LIMIT_DELAYS ! min (3 - 2) 5))"
  unfolding run3 by (simp add: spec_kth_permitted_def RATE_LIMIT_DELAYS_def)

text \<open>
  Claim C9, as the code has it.  A denied attempt returns the required delay minus the time
  since the last permitted attempt, rounded down to an integer (\<^verbatim>\<open>int\<close> truncates, and the
  difference is positive), and leaves the table as it was.
\<close>

theorem retry_after_truncated:
  assumes "RateLimiter_check attempts ip now = ((False, r), attempts')"
  shows "\<exists>data. attempts ip = Some data \<and>
           r = \<lfloor>real (RATE_LIMIT_DELAYS ! min (count data) 5) - (now - last_attempt data)\<rfloor> \<and>
           0 < real (RATE_LIMIT_DELAYS ! min (count data) 5) - (now - last_attempt data) \<and>
           attempts' = attempts"
  using assms
  by (auto simp: RateLimiter_check_def delays_len py_int_def Let_def split: option.splits if_splits)

lemma run2: "check_all Map.empty ip0 [1000, 1000] =
   ([True, True], [ip0 \<mapsto> \<lparr>count = 1, last_attempt = 1000\<rparr>])"
  by (simp add: RateLimiter_check_def RATE_LIMIT_DELAYS_def RATE_LIMIT_COOLDOWN_def)

lemma denied_half: "RateLimiter_check [ip0 \<mapsto> \<lparr>count = 1, last_attempt = 1000\<rparr>] ip0 (2001 / 2) =
   ((False, 9), [ip0 \<mapsto> \<lparr>count = 1, last_attempt = 1000\<rparr>])"
  by (simp add: RateLimiter_check_def RATE_LIMIT_DELAYS_def RATE_LIMIT_COOLDOWN_def py_int_def)

theorem retry_after_truncated_witness:
  "RateLimiter_check [ip0 \<mapsto> \<lparr>count = 1, last_attempt = 1000\<rparr>] ip0 (2001 / 2) =
     ((False, 9), [ip0 \<mapsto> \<lparr>count = 1, last_attempt = 1000\<rparr>]) \<and>
   (9::int) = \<lfloor>real (RATE_LIMIT_DELAYS ! min 1 5) - (2001 / 2 - 1000)\<rfloor>"
proof (intro conjI)
  show "RateLimiter_check [ip0 \<mapsto> \<lparr>count = 1, last_attempt = 1000\<rparr>] ip0 (2001 / 2) =
     ((False, 9), [ip0 \<mapsto> \<lparr>count = 1, last_attempt = 1000\<rparr>])"
    by (rule denied_half)
  show "(9::int) = \<lfloor>real (RATE_LIMIT_DELAYS ! min 1 5) - (2001 / 2 - 1000)\<rfloor>"
    using retry_after_truncated[OF denied_half] by simp
qed

text \<open>
  Half a second after the second attempt the delay is 10 s and 9.5 s remain: the code
  returns 9, rounding up gives 10.
\<close>

theorem retry_after_round_up_counterexample:
  "fst (check_all Map.empty ip0 [1000, 1000]) = [True, True] \<and>
   fst (RateLimiter_check (snd (check_all Map.empty ip0 [1000, 1000])) ip0 (2001 / 2)) = (False, 9) \<and>
   \<lceil>real (RATE_LIMIT_DELAYS ! min 1 5) - (2001 / 2 - 1000)\<rceil> = 10"
  unfolding run2 snd_conv denied_half fst_conv by (simp add: RATE_LIMIT_DELAYS_def)

section \<open>Room registry: properties\<close>

lemma py_last_length: "length (py_last n xs) \<le> n"
  by (simp add: py_last_def)

lemma py_last_idem: "py_last n (py_last n xs @ ys) = py_last n (xs @ ys)"
  by (cases "n \<le> length xs") (simp_all add: py_last_def add.commute)

lemma trim_eq: "(if length xs > n then py_last n xs else xs) = py_last n xs"
  by (simp add: py_last_def)

lemma send_accepted:
  assumes "rooms st h = Some room"
    and "fst (fst (handle_send_message st h body now u)) = 200"
  shows "\<exists>m. stored_message room (body, now, u) = Some m \<and> now < expires_at room \<and>
           rooms (snd (handle_send_message st h body now u)) h =
             Some (room\<lparr>messages := py_last MAX_MESSAGES (messages room @ [m])\<rparr>)"
  using assms
  by (auto simp: handle_send_message_def get_room_def save_room_def mutate_room_def Let_def trim_eq
      split: request_json.splits option.splits if_splits)

lemma stored_message_roster:
  "members room' = members room \<Longrightarrow> stored_message room' req = stored_message room req"
  by (cases req) (auto simp: new_message_def Let_def split: request_json.splits option.splits)

lemma send_all_log:
  assumes "rooms st h = Some room"
    and "\<forall>r \<in> set (fst (send_all st h reqs)). fst r = 200"
  shows "rooms (snd (send_all st h reqs)) h =
           Some (room\<lparr>messages := (if reqs = [] then messages room else
              py_last MAX_MESSAGES (messages room @ List.map_filter (stored_message room) reqs))\<rparr>)"
  using assms
proof (induction reqs arbitrary: st room)
  case Nil
  then show ?case by simp
next
  case (Cons req reqs)
  obtain body now u where req: "req = (body, now, u)" by (cases req)
  let ?st' = "snd (handle_send_message st h body now u)"
  have ok: "fst (fst (handle_send_message st h body now u)) = 200"
    using Cons.prems(2) req by (auto split: prod.splits)
  from send_accepted[OF Cons.prems(1) ok] obtain m where
    m: "stored_message room (body, now, u) = Some m" and
    st': "rooms ?st' h = Some (room\<lparr>messages := py_last MAX_MESSAGES (messages room @ [m])\<rparr>)"
    by blast
  let ?room' = "room\<lparr>messages := py_last MAX_MESSAGES (messages room @ [m])\<rparr>"
  have oks: "\<forall>r \<in> set (fst (send_all ?st' h reqs)). fst r = 200"
    using Cons.prems(2) req by (auto split: prod.splits)
  have sm: "stored_message ?room' = stored_message room"
    by (rule ext, rule stored_message_roster) simp
  have run: "snd (send_all st h (req # reqs)) = snd (send_all ?st' h reqs)"
    by (simp add: req split: prod.splits)
  have mf: "List.map_filter (stored_message room) (req # reqs) = m # List.map_filter (stored_message room) reqs"
    using m by (simp add: req map_filter_simps)
  have ih: "rooms (snd (send_all ?st' h reqs)) h =
           Some (?room'\<lparr>messages := (if reqs = [] then messages ?room' else
              py_last MAX_MESSAGES (messages ?room' @ List.map_filter (stored_message room) reqs))\<rparr>)"
    using Cons.IH[OF st' oks] unfolding sm .
  show ?case
    unfolding run ih mf
    by (simp add: py_last_idem)
qed

lemma send_all_stored:
  assumes "rooms st h = Some room"
    and "\<forall>r \<in> set (fst (send_all st h reqs)). fst r = 200"
  shows "length (List.map_filter (stored_message room) reqs) = length reqs"
  using assms
proof (induction reqs arbitrary: st room)
  case Nil
  then show ?case by (simp add: map_filter_simps)
next
  case (Cons req reqs)
  obtain body now u where req: "req = (body, now, u)" by (cases req)
  let ?st' = "snd (handle_send_message st h body now u)"
  have ok: "fst (fst (handle_send_message st h body now u)) = 200"
    using Cons.prems(2) req by (auto split: prod.splits)
  from send_accepted[OF Cons.prems(1) ok] obtain m where
    m: "stored_message room (body, now, u) = Some m" and
    st': "rooms ?st' h = Some (room\<lparr>messages := py_last MAX_MESSAGES (messages room @ [m])\<rparr>)"
    by blast
  let ?room' = "room\<lparr>messages := py_last MAX_MESSAGES (messages room @ [m])\<rparr>"
  have oks: "\<forall>r \<in> set (fst (send_all ?st' h reqs)). fst r = 200"
    using Cons.prems(2) req by (auto split: prod.splits)
  have sm: "stored_message ?room' = stored_message room"
    by (rule ext, rule stored_message_roster) simp
  show ?case
    using Cons.IH[OF st' oks] m unfolding sm by (simp add: req map_filter_simps)
qed

text \<open>
  Claim C6.  After any non-empty sequence of accepted sends to a room, the stored log has at
  most 500 messages: it is the last 500 of the earlier log followed by the messages sent, in
  send order; after more than 500 sends it is exactly the last 500 messages sent.
\<close>

theorem bounded_log:
  assumes "rooms st h = Some room"
    and "reqs \<noteq> []"
    and "list_all (\<lambda>r. fst r = 200) (fst (send_all st h reqs))"
  shows "\<exists>room'. rooms (snd (send_all st h reqs)) h = Some room' \<and>
           length (messages room') \<le> 500 \<and>
           length (List.map_filter (stored_message room) reqs) = length reqs \<and>
           messages room' = py_last 500 (messages room @ List.map_filter (stored_message room) reqs) \<and>
           (500 < length reqs \<longrightarrow>
              messages room' = py_last 500 (List.map_filter (stored_message room) reqs) \<and>
              length (messages room') = 500)"
proof -
  let ?sent = "List.map_filter (stored_message room) reqs"
  let ?log = "py_last 500 (messages room @ ?sent)"
  have oks: "\<forall>r \<in> set (fst (send_all st h reqs)). fst r = 200"
    using assms(3) by (simp add: list_all_iff)
  have final: "rooms (snd (send_all st h reqs)) h = Some (room\<lparr>messages := ?log\<rparr>)"
    using send_all_log[OF assms(1) oks] assms(2) by (simp add: MAX_MESSAGES_def)
  have len: "length ?sent = length reqs"
    by (rule send_all_stored[OF assms(1) oks])
  have many: "?log = py_last 500 ?sent \<and> length ?log = 500" if "500 < length reqs"
    using that len by (simp add: py_last_def)
  show ?thesis
    using final len many by (auto simp: py_last_length)
qed

lemma send_all_accepted:
  assumes "rooms st h = Some room"
    and "\<forall>req \<in> set reqs. fst (snd req) < expires_at room \<and> stored_message room req \<noteq> None"
  shows "list_all (\<lambda>r. fst r = 200) (fst (send_all st h reqs))"
  using assms
proof (induction reqs arbitrary: st room)
  case Nil
  then show ?case by simp
next
  case (Cons req reqs)
  obtain body now u where req: "req = (body, now, u)" by (cases req)
  from Cons.prems(2) req obtain m where
    live: "now < expires_at room" and m: "stored_message room (body, now, u) = Some m"
    by auto
  let ?st' = "snd (handle_send_message st h body now u)"
  let ?room' = "room\<lparr>messages := py_last MAX_MESSAGES (messages room @ [m])\<rparr>"
  have ok: "fst (fst (handle_send_message st h body now u)) = 200"
    using Cons.prems(1) live m
    by (auto simp: handle_send_message_def get_room_def Let_def
        split: request_json.splits option.splits if_splits)
  from send_accepted[OF Cons.prems(1) ok] m
  have st': "rooms ?st' h = Some ?room'" by simp
  have sm: "stored_message ?room' = stored_message room"
    by (rule ext, rule stored_message_roster) simp
  have rest: "\<forall>req \<in> set reqs. fst (snd req) < expires_at ?room' \<and> stored_message ?room' req \<noteq> None"
    unfolding sm using Cons.prems(2) by simp
  from Cons.IH[OF st' rest] ok show ?case
    by (auto simp: req split: prod.splits)
qed

lemma demo_relay_room: "rooms demo_relay demo_hash = Some demo_room"
  by (simp add: demo_relay_def empty_relay_def handle_create_room_def RateLimiter_check_def
      dict_get_def py_truthy_def py_len_def
      get_room_def save_room_def demo_room_def demo_hash_def demo_uuid_def lit_def ROOM_TTL_def Let_def)

text \<open>501 sends to a fresh room: the first message is gone, 500 remain.\<close>

theorem bounded_log_witness:
  "rooms demo_relay demo_hash = Some demo_room \<and> length demo_sends = 501 \<and>
   list_all (\<lambda>r. fst r = 200) (fst (send_all demo_relay demo_hash demo_sends)) \<and>
   (\<exists>room'. rooms (snd (send_all demo_relay demo_hash demo_sends)) demo_hash = Some room' \<and>
      messages room' = py_last 500 (List.map_filter (stored_message demo_room) demo_sends) \<and>
      length (messages room') = 500)"
proof -
  have len: "length demo_sends = 501" by (simp add: demo_sends_def)
  have ne: "demo_sends \<noteq> []" using len by auto
  have valid: "\<forall>req \<in> set demo_sends. fst (snd req) < expires_at demo_room \<and>
      stored_message demo_room req \<noteq> None"
    by (auto simp: demo_sends_def demo_room_def lit_def)
  have ok: "list_all (\<lambda>r. fst r = 200) (fst (send_all demo_relay demo_hash demo_sends))"
    by (rule send_all_accepted[OF demo_relay_room valid])
  show ?thesis
    using bounded_log[OF demo_relay_room ne ok] len ok demo_relay_room by auto
qed

lemma get_room_live:
  assumes "rooms st h = Some room" and "now < expires_at room"
  shows "get_room st h now = (Some room, st)"
  using assms by (simp add: get_room_def)

text \<open>
  Claim C7.  A poll of a live room with \<open>since = T\<close> answers 200 with the stored messages
  whose timestamp is greater than \<open>T\<close>, in the order of the log, the roster's nicknames and
  \<open>expires_at\<close>, and changes nothing.  With \<open>since = 0\<close>, or no \<open>since\<close> at all, it returns
  the whole log, the timestamps being clock readings after the epoch.
\<close>

theorem poll_returns_newer:
  assumes "rooms st h = Some room" and "now < expires_at room"
  shows "handle_poll st h (Some T) now =
           ((200, PollBody (filter (\<lambda>m. T < timestamp m) (messages room)) (map snd (members room))
                    (expires_at room) (length (messages room))), st) \<and>
         (list_all (\<lambda>m. 0 < timestamp m) (messages room) \<longrightarrow>
            body_messages (snd (fst (handle_poll st h (Some 0) now))) = messages room \<and>
            body_messages (snd (fst (handle_poll st h None now))) = messages room)"
  by (simp add: handle_poll_def get_room_live[OF assms] list_all_iff)

lemma demo_chat_room:
  "rooms demo_chat demo_hash = Some (demo_room\<lparr>messages :=
     [\<lparr>msg_id = take 12 demo_uuid, sender = lit ''me'', content = lit ''QQ=='', timestamp = 1001\<rparr>,
      \<lparr>msg_id = take 12 demo_uuid, sender = lit ''creator'', content = lit ''Qg=='', timestamp = 1002\<rparr>,
      \<lparr>msg_id = take 12 demo_uuid, sender = lit ''me'', content = lit ''Qw=='', timestamp = 1003\<rparr>]\<rparr>)"
proof -
  have valid: "\<forall>req \<in> set demo_three. fst (snd req) < expires_at demo_room \<and>
      stored_message demo_room req \<noteq> None"
    by (simp add: demo_three_def demo_room_def lit_def)
  have "list_all (\<lambda>r. fst r = 200) (fst (send_all demo_relay demo_hash demo_three))"
    by (rule send_all_accepted[OF demo_relay_room valid])
  then have oks: "\<forall>r \<in> set (fst (send_all demo_relay demo_hash demo_three)). fst r = 200"
    by (simp add: list_all_iff)
  show ?thesis
    unfolding demo_chat_def send_all_log[OF demo_relay_room oks]
    by (simp add: demo_three_def map_filter_simps new_message_def py_last_def MAX_MESSAGES_def
        demo_room_def lit_def)
qed

theorem poll_returns_newer_witness:
  "\<exists>room. rooms demo_chat demo_hash = Some room \<and> (1004::real) < expires_at room \<and>
     map timestamp (messages room) = [1001, 1002, 1003] \<and>
     map timestamp (body_messages (snd (fst (handle_poll demo_chat demo_hash (Some 1001) 1004)))) = [1002, 1003] \<and>
     body_messages (snd (fst (handle_poll demo_chat demo_hash (Some 0) 1004))) = messages room"
proof -
  let ?room = "demo_room\<lparr>messages :=
     [\<lparr>msg_id = take 12 demo_uuid, sender = lit ''me'', content = lit ''QQ=='', timestamp = 1001\<rparr>,
      \<lparr>msg_id = take 12 demo_uuid, sender = lit ''creator'', content = lit ''Qg=='', timestamp = 1002\<rparr>,
      \<lparr>msg_id = take 12 demo_uuid, sender = lit ''me'', content = lit ''Qw=='', timestamp = 1003\<rparr>]\<rparr>"
  have live: "(1004::real) < expires_at ?room" by (simp add: demo_room_def)
  from poll_returns_newer[OF demo_chat_room live, of 1001] live demo_chat_room
  show ?thesis by simp
qed

text \<open>
  Claim C4, as the code has it.  A create request that the rate limiter lets through is
  answered 400 exactly when its body is not JSON, or is an object whose \<open>room_hash\<close> is
  missing, null, false, zero, or a string, list or dict whose length is not 16; the
  characters of a string are not looked at.  It is answered 500 exactly when the body is
  JSON but not an object, or \<open>room_hash\<close> is true, a number other than zero, or a list or
  dict of length 16: the handler raises there.  A request the limiter stops is answered 429
  whatever it holds.  Nothing but \<open>room_hash\<close> is read from the body, so the mode the client
  supplies changes nothing.
\<close>

theorem create_room_rejects:
  "(if fst (fst (RateLimiter_check (rate_limiter st) ip now))
    then
      (fst (fst (handle_create_room st ip body now u)) = 400 \<longleftrightarrow>
         (case body of
            InvalidJson \<Rightarrow> True
          | JsonBody data \<Rightarrow>
              (case data of
                 JObject kvs \<Rightarrow>
                   (case dict_get kvs (lit ''room_hash'') of
                      JNull \<Rightarrow> True
                    | JBool b \<Rightarrow> \<not> b
                    | JNumber x \<Rightarrow> x = 0
                    | JString s \<Rightarrow> length s \<noteq> 16
                    | JArray xs \<Rightarrow> length xs \<noteq> 16
                    | JObject m \<Rightarrow> length m \<noteq> 16)
               | _ \<Rightarrow> False))) \<and>
      (fst (fst (handle_create_room st ip body now u)) = 500 \<longleftrightarrow>
         (case body of
            InvalidJson \<Rightarrow> False
          | JsonBody data \<Rightarrow>
              (case data of
                 JObject kvs \<Rightarrow>
                   (case dict_get kvs (lit ''room_hash'') of
                      JNull \<Rightarrow> False
                    | JBool b \<Rightarrow> b
                    | JNumber x \<Rightarrow> x \<noteq> 0
                    | JString s \<Rightarrow> False
                    | JArray xs \<Rightarrow> length xs = 16
                    | JObject m \<Rightarrow> length m = 16)
               | _ \<Rightarrow> True)))
    else fst (fst (handle_create_room st ip body now u)) = 429) \<and>
   (dict_get kvs1 (lit ''room_hash'') = dict_get kvs2 (lit ''room_hash'') \<longrightarrow>
      handle_create_room st ip (JsonBody (JObject kvs1)) now u =
      handle_create_room st ip (JsonBody (JObject kvs2)) now u)"
proof -
  have a: "fst (fst (handle_create_room st ip body now u)) = 429"
    if "\<not> fst (fst (RateLimiter_check (rate_limiter st) ip now))"
    using that by (auto simp: handle_create_room_def Let_def split: prod.splits)
  have b: "fst (fst (handle_create_room st ip body now u)) = 400 \<longleftrightarrow>
         (case body of
            InvalidJson \<Rightarrow> True
          | JsonBody data \<Rightarrow>
              (case data of
                 JObject kvs \<Rightarrow>
                   (case dict_get kvs (lit ''room_hash'') of
                      JNull \<Rightarrow> True
                    | JBool b \<Rightarrow> \<not> b
                    | JNumber x \<Rightarrow> x = 0
                    | JString s \<Rightarrow> length s \<noteq> 16
                    | JArray xs \<Rightarrow> length xs \<noteq> 16
                    | JObject m \<Rightarrow> length m \<noteq> 16)
               | _ \<Rightarrow> False))"
    if "fst (fst (RateLimiter_check (rate_limiter st) ip now))"
    using that
    by (auto simp: handle_create_room_def Let_def py_truthy_def py_len_def get_room_def
        split: prod.splits request_json.splits json.splits option.splits)
  have c: "fst (fst (handle_create_room st ip body now u)) = 500 \<longleftrightarrow>
         (case body of
            InvalidJson \<Rightarrow> False
          | JsonBody data \<Rightarrow>
              (case data of
                 JObject kvs \<Rightarrow>
                   (case dict_get kvs (lit ''room_hash'') of
                      JNull \<Rightarrow> False
                    | JBool b \<Rightarrow> b
                    | JNumber x \<Rightarrow> x \<noteq> 0
                    | JString s \<Rightarrow> False
                    | JArray xs \<Rightarrow> length xs = 16
                    | JObject m \<Rightarrow> length m = 16)
               | _ \<Rightarrow> True))"
    if "fst (fst (RateLimiter_check (rate_limiter st) ip now))"
    using that
    by (auto simp: handle_create_room_def Let_def py_truthy_def py_len_def get_room_def
        split: prod.splits request_json.splits json.splits option.splits)
  have d: "handle_create_room st ip (JsonBody (JObject kvs1)) now u =
      handle_create_room st ip (JsonBody (JObject kvs2)) now u"
    if "dict_get kvs1 (lit ''room_hash'') = dict_get kvs2 (lit ''room_hash'')"
    using that by (simp add: handle_create_room_def Let_def split: prod.splits)
  from a b c d show ?thesis by simp
qed

text \<open>
  Past the limiter: a hash of six characters is answered 400, the body \<open>[1, 2]\<close> and a hash
  that is a number are answered 500, a hash of sixteen characters is answered 200 whatever
  the mode.
\<close>

theorem create_room_rejects_witness:
  "fst (fst (RateLimiter_check (rate_limiter empty_relay) ip0 1000)) \<and>
   fst (fst (handle_create_room empty_relay ip0
     (JsonBody (JObject [(lit ''room_hash'', JString (lit ''a1b2c3'')), (lit ''mode'', JString (lit ''fixed''))]))
     1000 demo_uuid)) = 400 \<and>
   fst (fst (handle_create_room empty_relay ip0
     (JsonBody (JArray [JNumber 1, JNumber 2])) 1000 demo_uuid)) = 500 \<and>
   fst (fst (handle_create_room empty_relay ip0
     (JsonBody (JObject [(lit ''room_hash'', JNumber 1234567890123456)])) 1000 demo_uuid)) = 500 \<and>
   fst (fst (handle_create_room empty_relay ip0
     (JsonBody (JObject [(lit ''room_hash'', JString demo_hash), (lit ''mode'', JString (lit ''fixed''))]))
     1000 demo_uuid)) \<noteq> 400 \<and>
   handle_create_room empty_relay ip0
     (JsonBody (JObject [(lit ''room_hash'', JString demo_hash), (lit ''mode'', JString (lit ''bogus''))]))
     1000 demo_uuid =
   handle_create_room empty_relay ip0
     (JsonBody (JObject [(lit ''room_hash'', JString demo_hash)])) 1000 demo_uuid"
proof -
  have ok: "fst (fst (RateLimiter_check (rate_limiter empty_relay) ip0 1000))"
    by (simp add: RateLimiter_check_def empty_relay_def)
  note T = create_room_rejects[of empty_relay ip0 1000 _ demo_uuid]
  have a: "fst (fst (handle_create_room empty_relay ip0
     (JsonBody (JObject [(lit ''room_hash'', JString (lit ''a1b2c3'')), (lit ''mode'', JString (lit ''fixed''))]))
     1000 demo_uuid)) = 400"
    using ok T[of "JsonBody (JObject [(lit ''room_hash'', JString (lit ''a1b2c3'')), (lit ''mode'', JString (lit ''fixed''))])"]
    by (simp add: dict_get_def lit_def)
  have b: "fst (fst (handle_create_room empty_relay ip0
     (JsonBody (JArray [JNumber 1, JNumber 2])) 1000 demo_uuid)) = 500"
    using ok T[of "JsonBody (JArray [JNumber 1, JNumber 2])"] by simp
  have c: "fst (fst (handle_create_room empty_relay ip0
     (JsonBody (JObject [(lit ''room_hash'', JNumber 1234567890123456)])) 1000 demo_uuid)) = 500"
    using ok T[of "JsonBody (JObject [(lit ''room_hash'', JNumber 1234567890123456)])"]
    by (simp add: dict_get_def lit_def)
  have d: "fst (fst (handle_create_room empty_relay ip0
     (JsonBody (JObject [(lit ''room_hash'', JString demo_hash), (lit ''mode'', JString (lit ''fixed''))]))
     1000 demo_uuid)) \<noteq> 400"
    using ok T[of "JsonBody (JObject [(lit ''room_hash'', JString demo_hash), (lit ''mode'', JString (lit ''fixed''))])"]
    by (simp add: dict_get_def lit_def demo_hash_def)
  have e: "handle_create_room empty_relay ip0
     (JsonBody (JObject [(lit ''room_hash'', JString demo_hash), (lit ''mode'', JString (lit ''bogus''))]))
     1000 demo_uuid =
   handle_create_room empty_relay ip0
     (JsonBody (JObject [(lit ''room_hash'', JString demo_hash)])) 1000 demo_uuid"
    using T[of InvalidJson "[(lit ''room_hash'', JString demo_hash), (lit ''mode'', JString (lit ''bogus''))]"
        "[(lit ''room_hash'', JString demo_hash)]"]
    by (simp add: dict_get_def lit_def)
  from ok a b c d e show ?thesis by simp
qed

text \<open>
  Sixteen characters that are not hexadecimal digits and a mode that does not exist: the
  room is created.
\<close>

theorem create_room_unchecked_counterexample:
  "\<not> spec_valid_room_hash (lit ''ZZZZZZZZZZZZZZZZ'') \<and> \<not> spec_valid_mode (lit ''bogus'') \<and>
   fst (fst (handle_create_room empty_relay ip0
     (JsonBody (JObject [(lit ''room_hash'', JString (lit ''ZZZZZZZZZZZZZZZZ'')),
                         (lit ''mode'', JString (lit ''bogus''))]))
     1000 demo_uuid)) = 200"
  by (simp add: spec_valid_room_hash_def spec_valid_mode_def handle_create_room_def
      RateLimiter_check_def empty_relay_def get_room_def dict_get_def py_truthy_def py_len_def
      Let_def lit_def)

section \<open>Transport: properties\<close>

lemma set_state_state: "state (set_state t s) = s"
  by (simp add: set_state_def)

lemma set_state_session: "session (set_state t s) = session t"
  by (simp add: set_state_def session_def)

lemma connect_session: "session (snd (connect t made)) = session t"
  by (simp add: connect_def session_def set_state_def Let_def)

lemma enqueue_session: "session (enqueue t c s now) = session t"
  by (simp add: enqueue_def session_def)

text \<open>
  Claim C8.  Each of the four requests, when its HTTP call is made and raises a transport
  error, leaves the transport in state \<open>RECONNECTING\<close> with \<open>room_hash\<close>, \<open>member_id\<close> and
  \<open>last_message_ts\<close> as they were.  The call is made by create and join when a client is
  there or can be made, by send when a room is set, a client is there and the state is
  \<open>CONNECTED\<close>, and by poll when a room is set and a client is there.
\<close>

theorem transport_error_keeps_session:
  "(client t \<or> made \<longrightarrow>
      state (snd (create_room t h m made RequestError)) = RECONNECTING \<and>
      session (snd (create_room t h m made RequestError)) = session t \<and>
      state (snd (join_room t h n made RequestError)) = RECONNECTING \<and>
      session (snd (join_room t h n made RequestError)) = session t) \<and>
   (\<not> no_room t \<and> client t \<and> state t = CONNECTED \<longrightarrow>
      state (snd (send_message t c s now RequestError)) = RECONNECTING \<and>
      session (snd (send_message t c s now RequestError)) = session t) \<and>
   (\<not> no_room t \<and> client t \<longrightarrow>
      state (snd (poll_messages t now RequestError)) = RECONNECTING \<and>
      session (snd (poll_messages t now RequestError)) = session t)"
proof (intro conjI impI)
  assume c: "client t \<or> made"
  show "state (snd (create_room t h m made RequestError)) = RECONNECTING"
    using c by (auto simp: create_room_def connect_def set_state_state split: prod.splits)
  show "session (snd (create_room t h m made RequestError)) = session t"
    using c connect_session[of t made]
    by (auto simp: create_room_def connect_def set_state_session split: prod.splits)
  show "state (snd (join_room t h n made RequestError)) = RECONNECTING"
    using c by (auto simp: join_room_def connect_def set_state_state split: prod.splits)
  show "session (snd (join_room t h n made RequestError)) = session t"
    using c connect_session[of t made]
    by (auto simp: join_room_def connect_def set_state_session split: prod.splits)
next
  assume s: "\<not> no_room t \<and> client t \<and> state t = CONNECTED"
  show "state (snd (send_message t c s now RequestError)) = RECONNECTING"
    using s by (simp add: send_message_def set_state_state)
  show "session (snd (send_message t c s now RequestError)) = session t"
    using s by (simp add: send_message_def set_state_session enqueue_session)
next
  assume p: "\<not> no_room t \<and> client t"
  show "state (snd (poll_messages t now RequestError)) = RECONNECTING"
    using p by (simp add: poll_messages_def set_state_state)
  show "session (snd (poll_messages t now RequestError)) = session t"
    using p by (simp add: poll_messages_def set_state_session)
qed

text \<open>A connected transport in a room: the four failing requests, evaluated.\<close>

theorem transport_error_keeps_session_witness:
  "client demo_transport \<and> \<not> no_room demo_transport \<and> state demo_transport = CONNECTED \<and>
   session demo_transport = (Some demo_hash, Some (lit ''123e4567''), 1003) \<and>
   state (snd (create_room demo_transport demo_hash (lit ''rotating'') False RequestError)) = RECONNECTING \<and>
   session (snd (join_room demo_transport demo_hash (lit ''anon'') False RequestError)) = session demo_transport \<and>
   state (snd (send_message demo_transport (lit ''QQ=='') (lit ''me'') 1004 RequestError)) = RECONNECTING \<and>
   session (snd (send_message demo_transport (lit ''QQ=='') (lit ''me'') 1004 RequestError)) =
     (Some demo_hash, Some (lit ''123e4567''), 1003) \<and>
   state (snd (poll_messages demo_transport 1004 RequestError)) = RECONNECTING \<and>
   session (snd (poll_messages demo_transport 1004 RequestError)) =
     (Some demo_hash, Some (lit ''123e4567''), 1003)"
proof -
  have c: "client demo_transport" and r: "\<not> no_room demo_transport"
    and s: "state demo_transport = CONNECTED"
    and e: "session demo_transport = (Some demo_hash, Some (lit ''123e4567''), 1003)"
    by (simp_all add: demo_transport_def no_room_def session_def demo_hash_def lit_def)
  show ?thesis
    using c r s e
      transport_error_keeps_session[of demo_transport False demo_hash "lit ''rotating''" "lit ''anon''"
        "lit ''QQ==''" "lit ''me''" 1004]
    by simp
qed

section \<open>UTF-8: properties\<close>

lemma encode_cp_bytes:
  assumes "encode_cp c = Some bs"
  shows "\<forall>b \<in> set bs. b < 256"
  using assms by (auto simp: encode_cp_def split: if_splits)

lemma encode_cp_scalar: "is_scalar c \<Longrightarrow> \<exists>bs. encode_cp c = Some bs"
  by (auto simp: encode_cp_def is_scalar_def)

lemma split3: "(c::nat) div 4096 * 4096 + c div 64 mod 64 * 64 + c mod 64 = c"
proof -
  have "c mod (64 * 64) = 64 * (c div 64 mod 64) + c mod 64"
    by (rule mod_mult2_eq)
  then have "c mod 4096 = c div 64 mod 64 * 64 + c mod 64" by (simp add: mult.commute)
  moreover have "c div 4096 * 4096 + c mod 4096 = c" by simp
  ultimately show ?thesis by simp
qed

lemma split4:
  "(c::nat) div 262144 * 262144 + c div 4096 mod 64 * 4096 + c div 64 mod 64 * 64 + c mod 64 = c"
proof -
  have "c mod (4096 * 64) = 4096 * (c div 4096 mod 64) + c mod 4096"
    by (rule mod_mult2_eq)
  then have "c mod 262144 = c div 4096 mod 64 * 4096 + c mod 4096" by (simp add: mult.commute)
  moreover have "c mod (64 * 64) = 64 * (c div 64 mod 64) + c mod 64"
    by (rule mod_mult2_eq)
  then have "c mod 4096 = c div 64 mod 64 * 64 + c mod 64" by (simp add: mult.commute)
  moreover have "c div 262144 * 262144 + c mod 262144 = c" by simp
  ultimately show ?thesis by simp
qed

lemma offset_cancel: "numeral k + x - numeral k = (x::nat)"
  by simp

lemma decode2:
  assumes "c = hi * 64 + lo" "2 \<le> hi" "hi < 32" "lo < 64"
  shows "utf8_decode_nat ([0xC0 + hi, 0x80 + lo] @ rest) =
           (case utf8_decode_nat rest of None \<Rightarrow> None | Some cs \<Rightarrow> Some (c # cs))"
  using assms by (simp add: continuation_def offset_cancel split: option.split)

lemma decode3:
  assumes "c = hi * 4096 + m * 64 + lo" "hi < 16" "m < 64" "lo < 64" "0x800 \<le> c"
    "\<not> (0xD800 \<le> c \<and> c \<le> 0xDFFF)"
  shows "utf8_decode_nat ([0xE0 + hi, 0x80 + m, 0x80 + lo] @ rest) =
           (case utf8_decode_nat rest of None \<Rightarrow> None | Some cs \<Rightarrow> Some (c # cs))"
  using assms by (simp add: continuation_def offset_cancel Let_def split: option.split)

lemma decode4:
  assumes "c = hi * 262144 + m1 * 4096 + m2 * 64 + lo" "hi < 5" "m1 < 64" "m2 < 64" "lo < 64"
    "0x10000 \<le> c" "c < 0x110000"
  shows "utf8_decode_nat ([0xF0 + hi, 0x80 + m1, 0x80 + m2, 0x80 + lo] @ rest) =
           (case utf8_decode_nat rest of None \<Rightarrow> None | Some cs \<Rightarrow> Some (c # cs))"
  using assms by (simp add: continuation_def offset_cancel Let_def split: option.split)

lemma decode_encode_cp:
  assumes "encode_cp c = Some bs"
  shows "utf8_decode_nat (bs @ rest) =
           (case utf8_decode_nat rest of None \<Rightarrow> None | Some cs \<Rightarrow> Some (c # cs))"
proof -
  consider "c < 0x80" | "0x80 \<le> c" "c < 0x800" | "0x800 \<le> c" "c < 0x10000" | "0x10000 \<le> c"
    by linarith
  then show ?thesis
  proof cases
    case 1
    then show ?thesis using assms by (auto simp: encode_cp_def)
  next
    case 2
    then have bs: "bs = [0xC0 + c div 64, 0x80 + c mod 64]"
      using assms by (auto simp: encode_cp_def)
    show ?thesis unfolding bs
    proof (rule decode2)
      show "c = c div 64 * 64 + c mod 64" by simp
      show "2 \<le> c div 64" "c div 64 < 32" "c mod 64 < 64" using 2 by auto
    qed
  next
    case 3
    then have ns: "\<not> (0xD800 \<le> c \<and> c \<le> 0xDFFF)"
      and bs: "bs = [0xE0 + c div 4096, 0x80 + c div 64 mod 64, 0x80 + c mod 64]"
      using assms by (auto simp: encode_cp_def split: if_splits)
    show ?thesis unfolding bs
    proof (rule decode3)
      show "c = c div 4096 * 4096 + c div 64 mod 64 * 64 + c mod 64" by (rule split3[symmetric])
      show "c div 4096 < 16" "c div 64 mod 64 < 64" "c mod 64 < 64" using 3 by auto
      show "0x800 \<le> c" by (rule 3)
      show "\<not> (0xD800 \<le> c \<and> c \<le> 0xDFFF)" by (rule ns)
    qed
  next
    case 4
    then have lt: "c < 0x110000"
      and bs: "bs = [0xF0 + c div 262144, 0x80 + c div 4096 mod 64, 0x80 + c div 64 mod 64, 0x80 + c mod 64]"
      using assms by (auto simp: encode_cp_def split: if_splits)
    show ?thesis unfolding bs
    proof (rule decode4)
      show "c = c div 262144 * 262144 + c div 4096 mod 64 * 4096 + c div 64 mod 64 * 64 + c mod 64"
        by (rule split4[symmetric])
      show "c div 262144 < 5" "c div 4096 mod 64 < 64" "c div 64 mod 64 < 64" "c mod 64 < 64"
        using lt by auto
      show "0x10000 \<le> c" by (rule 4)
      show "c < 0x110000" by (rule lt)
    qed
  qed
qed

lemma decode_encode_nat:
  "utf8_encode_nat s = Some ns \<Longrightarrow> utf8_decode_nat ns = Some s"
proof (induction s arbitrary: ns)
  case Nil
  then show ?case by simp
next
  case (Cons c cs)
  then obtain bs rest where e: "encode_cp c = Some bs" and r: "utf8_encode_nat cs = Some rest"
    and ns: "ns = bs @ rest"
    by (auto split: option.splits)
  show ?case unfolding ns decode_encode_cp[OF e] using Cons.IH[OF r] by simp
qed

lemma encode_nat_bytes:
  "utf8_encode_nat s = Some ns \<Longrightarrow> \<forall>b \<in> set ns. b < 256"
proof (induction s arbitrary: ns)
  case Nil
  then show ?case by simp
next
  case (Cons c cs)
  then obtain bs rest where e: "encode_cp c = Some bs" and r: "utf8_encode_nat cs = Some rest"
    and ns: "ns = bs @ rest"
    by (auto split: option.splits)
  show ?case unfolding ns using encode_cp_bytes[OF e] Cons.IH[OF r] by auto
qed

lemma unat_of_nat_bytes:
  "\<forall>b \<in> set ns. b < 256 \<Longrightarrow> map unat (map of_nat ns :: bytes) = ns"
  by (induction ns) (simp_all add: unat_of_nat)

lemma utf8_roundtrip:
  assumes "utf8_encode s = Inr bs"
  shows "utf8_decode bs = Inr s"
proof -
  from assms obtain ns where ns: "utf8_encode_nat s = Some ns" and bs: "bs = map of_nat ns"
    by (auto simp: utf8_encode_def split: option.splits)
  show ?thesis
    unfolding utf8_decode_def bs unat_of_nat_bytes[OF encode_nat_bytes[OF ns]]
    by (simp add: decode_encode_nat[OF ns])
qed

lemma encode_nat_text:
  "unicode_text s \<Longrightarrow> \<exists>ns. utf8_encode_nat s = Some ns"
proof (induction s)
  case Nil
  then show ?case by simp
next
  case (Cons c cs)
  then have "is_scalar c" "unicode_text cs" by (simp_all add: unicode_text_def)
  with Cons.IH encode_cp_scalar[of c] show ?case by auto
qed

lemma utf8_encode_text: "unicode_text s \<Longrightarrow> \<exists>bs. utf8_encode s = Inr bs"
  using encode_nat_text[of s] by (auto simp: utf8_encode_def)

lemma utf8_encode_inj:
  assumes "utf8_encode s = Inr bs" and "utf8_encode s' = Inr bs"
  shows "s = s'"
  using utf8_roundtrip[OF assms(1)] utf8_roundtrip[OF assms(2)] by simp

section \<open>Cryptographic core: properties\<close>

lemma unicode_text_append: "unicode_text (a @ b) = (unicode_text a \<and> unicode_text b)"
  by (simp add: unicode_text_def)

lemma of_char_byte: "(of_char ch :: nat) < 256"
proof -
  have "(of_char ch :: nat) mod 256 < 256" by simp
  then show ?thesis by (simp only: of_char_mod_256)
qed

lemma unicode_text_lit: "unicode_text (lit s)"
proof -
  have "is_scalar (of_char ch)" for ch
    using of_char_byte[of ch] unfolding is_scalar_def by linarith
  then show ?thesis by (simp add: unicode_text_def lit_def list_all_iff)
qed

lemma digits_text: "unicode_text (digits n)"
proof (induction n rule: digits.induct)
  case (1 n)
  show ?case
  proof (cases "n < 10")
    case True
    then show ?thesis by (subst digits.simps) (simp add: unicode_text_def is_scalar_def)
  next
    case False
    with 1 have "unicode_text (digits (n div 10))" by simp
    moreover have "n mod 10 < 10" by simp
    then have "is_scalar (48 + n mod 10)" unfolding is_scalar_def by linarith
    ultimately show ?thesis using False
      by (subst digits.simps) (simp add: unicode_text_def)
  qed
qed

lemma py_str_int_text: "unicode_text (py_str_int i)"
  by (simp add: py_str_int_def unicode_text_def is_scalar_def digits_text[unfolded unicode_text_def])

lemma salt_input_text:
  "unicode_text (concat emoji_list) \<Longrightarrow> unicode_text (salt_input emoji_list ts)"
proof -
  have "unicode_text []" by (simp add: unicode_text_def)
  then show "unicode_text (concat emoji_list) \<Longrightarrow> unicode_text (salt_input emoji_list ts)"
    by (simp add: salt_input_def unicode_text_append unicode_text_lit py_str_int_text
        split: option.split)
qed

lemma derive_room_key_ok:
  assumes "primitives_ok P" and "unicode_text (concat emoji_list)" and "unicode_text pin"
  shows "\<exists>key. derive_room_key P emoji_list pin anchor = Inr key \<and> length key = 32"
proof -
  have "unicode_text (concat emoji_list @ lit '':'' @ pin)"
    using assms(2,3) by (simp add: unicode_text_append unicode_text_lit)
  then obtain pw where pw: "utf8_encode (concat emoji_list @ lit '':'' @ pin) = Inr pw"
    using utf8_encode_text by blast
  obtain hashed where h: "utf8_encode (salt_input emoji_list anchor) = Inr hashed"
    using utf8_encode_text[OF salt_input_text[OF assms(2)]] by blast
  show ?thesis
    using assms(1) by (simp add: derive_room_key_def room_salt_def pw h primitives_ok_def)
qed

lemma box_round_trip:
  assumes "primitives_ok P" and "length key = 32" and "length nonce = 24"
  shows "SecretBox_decrypt P key (nonce @ crypto_secretbox P plaintext nonce key) = Inr plaintext"
  using assms by (simp add: SecretBox_decrypt_def NONCE_SIZE_def primitives_ok_def Let_def)

text \<open>
  Claim C1.  For every emoji sequence and PIN that are Unicode text and every anchor,
  \<^verbatim>\<open>derive_room_key\<close> gives a key \<open>K\<close>, and for every message that is Unicode text and
  every 24-byte nonce drawn by \<^verbatim>\<open>encrypt_message\<close>, decrypting the encryption of the message
  under \<open>K\<close> gives the message back.  The libraries are taken at their documented contract.
\<close>

theorem crypto_round_trip:
  assumes "primitives_ok P"
    and "unicode_text (concat emoji_list)" and "unicode_text pin"
    and "unicode_text m" and "length nonce = 24"
  shows "\<exists>K ct. derive_room_key P emoji_list pin anchor = Inr K \<and>
           encrypt_message P m K nonce = Inr ct \<and>
           decrypt_message P ct K = Inr (Some m)"
proof -
  from derive_room_key_ok[OF assms(1-3)] obtain K where
    K: "derive_room_key P emoji_list pin anchor = Inr K" and len: "length K = 32"
    by blast
  from utf8_encode_text[OF assms(4)] obtain pt where pt: "utf8_encode m = Inr pt"
    by blast
  let ?ct = "nonce @ crypto_secretbox P pt nonce K"
  have enc: "encrypt_message P m K nonce = Inr ?ct"
    using len assms(5) by (simp add: encrypt_message_def SecretBox_encrypt_def pt KEY_SIZE_def NONCE_SIZE_def)
  have dec: "decrypt_message P ?ct K = Inr (Some m)"
    using len by (simp add: decrypt_message_def KEY_SIZE_def
        box_round_trip[OF assms(1) len assms(5)] utf8_roundtrip[OF pt])
  from K enc dec show ?thesis by blast
qed

lemma demo_primitives_ok: "primitives_ok demo_primitives"
  by (auto simp: primitives_ok_def demo_primitives_def demo_sha256_def demo_argon2id_def
      demo_secretbox_def demo_secretbox_open_def)

lemma demo_emojis_text: "unicode_text (concat demo_emojis)"
  by (simp add: demo_emojis_def unicode_text_def is_scalar_def)

lemma demo_pin_text: "unicode_text demo_pin"
  unfolding demo_pin_def by (rule unicode_text_lit)

lemma demo_nonce_length: "length demo_nonce = 24"
  by (simp add: demo_nonce_def)

text \<open>Six emojis, the PIN 123456, the anchor 1005 and the message "hi".\<close>

theorem crypto_round_trip_witness:
  "primitives_ok demo_primitives \<and> unicode_text (concat demo_emojis) \<and> unicode_text demo_pin \<and>
   unicode_text (lit ''hi'') \<and> length demo_nonce = 24 \<and>
   (\<exists>K ct. derive_room_key demo_primitives demo_emojis demo_pin (Some 1005) = Inr K \<and>
      encrypt_message demo_primitives (lit ''hi'') K demo_nonce = Inr ct \<and>
      decrypt_message demo_primitives ct K = Inr (Some (lit ''hi'')))"
  using crypto_round_trip[OF demo_primitives_ok demo_emojis_text demo_pin_text
      unicode_text_lit[of "''hi''"] demo_nonce_length, of "Some 1005"]
    demo_primitives_ok demo_emojis_text demo_pin_text unicode_text_lit[of "''hi''"] demo_nonce_length
  by simp

lemma demo_key_length: "length demo_key = 32"
  using derive_room_key_ok[OF demo_primitives_ok demo_emojis_text demo_pin_text, of "Some 1005"]
  by (auto simp: demo_key_def)

lemma decode_ff: "utf8_decode [0xFF] = Inl UnicodeDecodeError"
  by (simp add: utf8_decode_def)

lemma utf8_decode_error: "utf8_decode bs = Inl e \<Longrightarrow> e = UnicodeDecodeError"
  by (auto simp: utf8_decode_def split: option.splits)

text \<open>
  Claim C10, as the code has it.  Under a 32-byte key, \<^verbatim>\<open>decrypt_message\<close> returns \<^verbatim>\<open>None\<close>
  when the input has fewer than 24 bytes or its box does not open, and the decoded text when
  the box opens to valid UTF-8; when the box opens to bytes that are not valid UTF-8 it
  raises \<^verbatim>\<open>UnicodeDecodeError\<close>, and that is the only exception it raises.
\<close>

theorem decrypt_message_outcomes:
  assumes "length key = 32"
  shows "decrypt_message P encrypted key =
           (if length encrypted < 24 then Inr None
            else case crypto_secretbox_open P (drop 24 encrypted) (take 24 encrypted) key of
                   None \<Rightarrow> Inr None
                 | Some plaintext \<Rightarrow>
                     (case utf8_decode plaintext of
                        Inl e \<Rightarrow> Inl UnicodeDecodeError
                      | Inr message \<Rightarrow> Inr (Some message))) \<and>
         (\<forall>e. decrypt_message P encrypted key = Inl e \<longrightarrow> e = UnicodeDecodeError)"
  using assms
  by (auto simp: decrypt_message_def SecretBox_decrypt_def KEY_SIZE_def NONCE_SIZE_def Let_def
      dest: utf8_decode_error split: option.splits sum.splits py_exception.splits)

theorem decrypt_message_outcomes_witness:
  "length demo_key = 32 \<and> decrypt_message demo_primitives [] demo_key = Inr None \<and>
   decrypt_message demo_primitives (demo_nonce @ replicate 16 0) demo_key \<noteq> Inl CryptoError"
  using decrypt_message_outcomes[OF demo_key_length, of demo_primitives "[]"]
    decrypt_message_outcomes[OF demo_key_length, of demo_primitives "demo_nonce @ replicate 16 0"]
    demo_key_length
  by auto

text \<open>
  A box sealed under the key around the single byte 0xFF opens, and the decoding of its
  content raises: the function is not total.
\<close>

lemma invalid_utf8_raises:
  assumes "primitives_ok P" and "length key = 32" and "length nonce = 24"
  shows "decrypt_message P (nonce @ crypto_secretbox P [0xFF] nonce key) key = Inl UnicodeDecodeError"
  using assms(2)
  by (simp add: decrypt_message_def KEY_SIZE_def box_round_trip[OF assms] decode_ff)

theorem decrypt_message_raises_counterexample:
  "length demo_key = 32 \<and>
   decrypt_message demo_primitives
     (demo_nonce @ crypto_secretbox demo_primitives [0xFF] demo_nonce demo_key) demo_key =
   Inl UnicodeDecodeError"
  using invalid_utf8_raises[OF demo_primitives_ok demo_key_length demo_nonce_length] demo_key_length
  by simp

subsection \<open>The salt\<close>

lemma digits_nonempty: "digits n \<noteq> []"
  by (subst digits.simps) simp

lemma digits_chars: "\<forall>c \<in> set (digits n). 48 \<le> c"
proof (induction n rule: digits.induct)
  case (1 n)
  show ?case
  proof (cases "n < 10")
    case True
    then show ?thesis by (subst digits.simps) simp
  next
    case False
    with 1 show ?thesis by (subst digits.simps) auto
  qed
qed

lemma digits_inj: "digits n = digits m \<Longrightarrow> n = m"
proof (induction n arbitrary: m rule: digits.induct)
  case (1 n)
  show ?case
  proof (cases "n < 10")
    case n: True
    show ?thesis
    proof (cases "m < 10")
      case True
      with n "1.prems" show ?thesis
        by (subst (asm) digits.simps, subst (asm) (2) digits.simps) simp
    next
      case False
      have "digits m = digits (m div 10) @ [48 + m mod 10]"
        using False by (subst digits.simps) simp
      moreover have "digits n = [48 + n]" using n by (subst digits.simps) simp
      ultimately show ?thesis using "1.prems" digits_nonempty[of "m div 10"] by simp
    qed
  next
    case n: False
    have dn: "digits n = digits (n div 10) @ [48 + n mod 10]"
      using n by (subst digits.simps) simp
    show ?thesis
    proof (cases "m < 10")
      case True
      then have "digits m = [48 + m]" by (subst digits.simps) simp
      then show ?thesis using "1.prems" dn digits_nonempty[of "n div 10"] by simp
    next
      case False
      then have dm: "digits m = digits (m div 10) @ [48 + m mod 10]"
        by (subst digits.simps) simp
      from "1.prems" dn dm have "digits (n div 10) = digits (m div 10)" "n mod 10 = m mod 10"
        by simp_all
      with "1.IH"[OF n] have "n div 10 = m div 10" "n mod 10 = m mod 10" by simp_all
      then show ?thesis by (metis div_mult_mod_eq)
    qed
  qed
qed

lemma py_str_int_inj: "py_str_int i = py_str_int j \<Longrightarrow> i = j"
proof -
  assume eq: "py_str_int i = py_str_int j"
  have no_minus: "digits n \<noteq> 45 # xs" for n xs
  proof
    assume "digits n = 45 # xs"
    then have "(45::nat) \<in> set (digits n)" by simp
    with digits_chars[of n] show False by auto
  qed
  show "i = j"
  proof (cases "i < 0")
    case i: True
    show ?thesis
    proof (cases "j < 0")
      case True
      with i eq have "nat (- i) = nat (- j)" by (simp add: py_str_int_def digits_inj)
      with i True show ?thesis by simp
    next
      case False
      with i eq have "digits (nat j) = 45 # digits (nat (- i))" by (simp add: py_str_int_def)
      with no_minus show ?thesis by blast
    qed
  next
    case i: False
    show ?thesis
    proof (cases "j < 0")
      case True
      with i eq have "digits (nat i) = 45 # digits (nat (- j))" by (simp add: py_str_int_def)
      with no_minus show ?thesis by blast
    next
      case False
      with i eq have "nat i = nat j" by (simp add: py_str_int_def digits_inj)
      with i False show ?thesis by simp
    qed
  qed
qed

lemma salt_input_anchor:
  assumes "a \<noteq> 0"
  shows "salt_input emoji_list (Some a) = spec_salt_input emoji_list (py_int a)"
  using assms by (simp add: salt_input_def spec_salt_input_def)

lemma spec_salt_input_inj:
  "spec_salt_input emoji_list i = spec_salt_input emoji_list j \<Longrightarrow> i = j"
  by (simp add: spec_salt_input_def py_str_int_inj)

lemma derive_room_key_salt:
  assumes "derive_room_key P emoji_list pin anchor = Inr K"
  shows "\<exists>password hashed.
           utf8_encode (concat emoji_list @ lit '':'' @ pin) = Inr password \<and>
           utf8_encode (salt_input emoji_list anchor) = Inr hashed \<and>
           K = argon2id P password (take 16 (sha256 P hashed)) 32"
  using assms by (auto simp: derive_room_key_def room_salt_def split: sum.splits)

text \<open>
  Claim C5, as the code has it.  The key is Argon2id of the password under the salt made of
  the first 16 bytes of SHA-256 over the UTF-8 encoding of \<open>salt_input\<close>.  For an anchor that
  is given and is not zero, \<open>salt_input\<close> is "sos-chat-v1:", the emojis, a colon and the
  anchor's integer part in decimal; for the anchor zero, or none, it is "sos-chat-v1:" and the
  emojis alone.  Two non-zero anchors with different integer parts give different hashed
  byte strings.
\<close>

theorem salt_binds_anchor:
  "(derive_room_key P emoji_list pin anchor = Inr K \<longrightarrow>
      (\<exists>password hashed.
         utf8_encode (concat emoji_list @ lit '':'' @ pin) = Inr password \<and>
         utf8_encode (salt_input emoji_list anchor) = Inr hashed \<and>
         K = argon2id P password (take 16 (sha256 P hashed)) 32)) \<and>
   (a \<noteq> 0 \<longrightarrow>
      salt_input emoji_list (Some a) =
        lit ''sos-chat-v1:'' @ concat emoji_list @ lit '':'' @ py_str_int (py_int a)) \<and>
   salt_input emoji_list (Some 0) = lit ''sos-chat-v1:'' @ concat emoji_list \<and>
   salt_input emoji_list None = lit ''sos-chat-v1:'' @ concat emoji_list \<and>
   (a \<noteq> 0 \<and> b \<noteq> 0 \<and> py_int a \<noteq> py_int b \<and> unicode_text (concat emoji_list) \<longrightarrow>
      (\<exists>ha hb. utf8_encode (salt_input emoji_list (Some a)) = Inr ha \<and>
         utf8_encode (salt_input emoji_list (Some b)) = Inr hb \<and> ha \<noteq> hb))"
proof (intro conjI impI)
  assume "derive_room_key P emoji_list pin anchor = Inr K"
  then show "\<exists>password hashed.
         utf8_encode (concat emoji_list @ lit '':'' @ pin) = Inr password \<and>
         utf8_encode (salt_input emoji_list anchor) = Inr hashed \<and>
         K = argon2id P password (take 16 (sha256 P hashed)) 32"
    by (rule derive_room_key_salt)
next
  assume "a \<noteq> 0"
  then show "salt_input emoji_list (Some a) =
        lit ''sos-chat-v1:'' @ concat emoji_list @ lit '':'' @ py_str_int (py_int a)"
    by (simp add: salt_input_def)
next
  show "salt_input emoji_list (Some 0) = lit ''sos-chat-v1:'' @ concat emoji_list"
    "salt_input emoji_list None = lit ''sos-chat-v1:'' @ concat emoji_list"
    by (simp_all add: salt_input_def)
next
  assume h: "a \<noteq> 0 \<and> b \<noteq> 0 \<and> py_int a \<noteq> py_int b \<and> unicode_text (concat emoji_list)"
  then obtain ha hb where ha: "utf8_encode (salt_input emoji_list (Some a)) = Inr ha"
    and hb: "utf8_encode (salt_input emoji_list (Some b)) = Inr hb"
    using utf8_encode_text[OF salt_input_text] by blast
  have "salt_input emoji_list (Some a) \<noteq> salt_input emoji_list (Some b)"
    using h spec_salt_input_inj[of emoji_list "py_int a" "py_int b"]
    by (auto simp: salt_input_anchor)
  then have "ha \<noteq> hb" using utf8_encode_inj[OF ha] hb by blast
  with ha hb show "\<exists>ha hb. utf8_encode (salt_input emoji_list (Some a)) = Inr ha \<and>
         utf8_encode (salt_input emoji_list (Some b)) = Inr hb \<and> ha \<noteq> hb"
    by blast
qed

lemma demo_key_derived:
  "derive_room_key demo_primitives demo_emojis demo_pin (Some 1005) = Inr demo_key"
  using derive_room_key_ok[OF demo_primitives_ok demo_emojis_text demo_pin_text, of "Some 1005"]
  by (auto simp: demo_key_def)

lemma py_str_1005: "py_str_int 1005 = lit ''1005''"
  by (simp add: py_str_int_def digits.simps lit_def)

theorem salt_binds_anchor_witness:
  "derive_room_key demo_primitives demo_emojis demo_pin (Some 1005) = Inr demo_key \<and>
   (\<exists>password hashed.
      utf8_encode (salt_input demo_emojis (Some 1005)) = Inr hashed \<and>
      demo_key = argon2id demo_primitives password (take 16 (sha256 demo_primitives hashed)) 32) \<and>
   salt_input demo_emojis (Some 1005) = lit ''sos-chat-v1:'' @ concat demo_emojis @ lit '':1005'' \<and>
   unicode_text (concat demo_emojis) \<and> py_int 990 \<noteq> py_int 1005 \<and>
   (\<exists>ha hb. utf8_encode (salt_input demo_emojis (Some 990)) = Inr ha \<and>
      utf8_encode (salt_input demo_emojis (Some 1005)) = Inr hb \<and> ha \<noteq> hb)"
proof -
  note T = salt_binds_anchor[of demo_primitives demo_emojis demo_pin "Some 1005" demo_key]
  have ne: "py_int 990 \<noteq> py_int 1005" by (simp add: py_int_def)
  have a: "\<exists>password hashed.
      utf8_encode (salt_input demo_emojis (Some 1005)) = Inr hashed \<and>
      demo_key = argon2id demo_primitives password (take 16 (sha256 demo_primitives hashed)) 32"
    using T[of 1005 990] demo_key_derived by blast
  have b: "salt_input demo_emojis (Some 1005) = lit ''sos-chat-v1:'' @ concat demo_emojis @ lit '':1005''"
    using T[of 1005 990] py_str_1005 by (simp add: py_int_def lit_def)
  have c: "\<exists>ha hb. utf8_encode (salt_input demo_emojis (Some 990)) = Inr ha \<and>
      utf8_encode (salt_input demo_emojis (Some 1005)) = Inr hb \<and> ha \<noteq> hb"
  proof -
    have "(990::real) \<noteq> 0" "(1005::real) \<noteq> 0" by simp_all
    with T[of 990 1005] ne demo_emojis_text show ?thesis by blast
  qed
  from demo_key_derived a b c ne demo_emojis_text show ?thesis by blast
qed

text \<open>
  Salts are 16 bytes long and anchors are unbounded, so no digest function keeps the salts
  of all anchors apart.
\<close>

lemma finite_salts: "finite {x :: py_exception + bytes. \<exists>bs. x = Inr bs \<and> length bs = 16}"
proof -
  have "finite {bs :: bytes. set bs \<subseteq> UNIV \<and> length bs = 16}"
    by (rule finite_lists_length_eq) simp
  then have "finite (Inr ` {bs :: bytes. length bs = 16} :: (py_exception + bytes) set)"
    by simp
  moreover have "{x :: py_exception + bytes. \<exists>bs. x = Inr bs \<and> length bs = 16} =
      Inr ` {bs :: bytes. length bs = 16}"
    by auto
  ultimately show ?thesis by simp
qed

lemma salts_collide:
  assumes "primitives_ok P" and "unicode_text (concat emoji_list)"
  shows "\<not> (\<forall>a b :: int. a \<noteq> b \<longrightarrow>
            room_salt P emoji_list (Some (of_int a)) \<noteq> room_salt P emoji_list (Some (of_int b)))"
proof
  let ?f = "\<lambda>a :: int. room_salt P emoji_list (Some (of_int a))"
  assume "\<forall>a b :: int. a \<noteq> b \<longrightarrow> ?f a \<noteq> ?f b"
  then have inj: "inj ?f" by (auto simp: inj_def)
  have "?f a \<in> {x. \<exists>bs. x = Inr bs \<and> length bs = 16}" for a
  proof -
    obtain hashed where "utf8_encode (salt_input emoji_list (Some (of_int a))) = Inr hashed"
      using utf8_encode_text[OF salt_input_text[OF assms(2)]] by blast
    then show ?thesis using assms(1) by (simp add: room_salt_def primitives_ok_def)
  qed
  then have "range ?f \<subseteq> {x. \<exists>bs. x = Inr bs \<and> length bs = 16}" by blast
  then have "finite (range ?f)" using finite_salts by (rule finite_subset)
  then have "finite (UNIV :: int set)" using inj by (rule finite_imageD)
  then show False by simp
qed

text \<open>
  The anchor 0 is left out of the hashed string, so the key is that of no anchor; the
  anchors 1000 and 1000.5 give the same salt; and some two integer anchors share a salt.
\<close>

theorem salt_ignores_anchor_counterexample:
  "salt_input demo_emojis (Some 0) \<noteq> spec_salt_input demo_emojis 0 \<and>
   derive_room_key demo_primitives demo_emojis demo_pin (Some 0) =
     derive_room_key demo_primitives demo_emojis demo_pin None \<and>
   (1000::real) \<noteq> 2001 / 2 \<and>
   room_salt demo_primitives demo_emojis (Some 1000) =
     room_salt demo_primitives demo_emojis (Some (2001 / 2)) \<and>
   \<not> (\<forall>a b :: int. a \<noteq> b \<longrightarrow>
        room_salt demo_primitives demo_emojis (Some (of_int a)) \<noteq>
        room_salt demo_primitives demo_emojis (Some (of_int b)))"
proof -
  have a: "salt_input demo_emojis (Some 0) \<noteq> spec_salt_input demo_emojis 0"
    by (simp add: salt_input_def spec_salt_input_def lit_def)
  have b: "derive_room_key demo_primitives demo_emojis demo_pin (Some 0) =
     derive_room_key demo_primitives demo_emojis demo_pin None"
  proof -
    have "room_salt demo_primitives demo_emojis (Some 0) = room_salt demo_primitives demo_emojis None"
      by (simp add: room_salt_def salt_input_def)
    then show ?thesis unfolding derive_room_key_def by (simp only:)
  qed
  have "py_int (2001 / 2) = py_int 1000" by (simp add: py_int_def)
  then have c: "room_salt demo_primitives demo_emojis (Some 1000) =
     room_salt demo_primitives demo_emojis (Some (2001 / 2))"
    by (simp add: room_salt_def salt_input_def)
  from a b c salts_collide[OF demo_primitives_ok demo_emojis_text] show ?thesis by simp
qed

section \<open>Session controller: properties\<close>

lemma rotating_not_fixed: "lit ''rotating'' \<noteq> lit ''fixed''"
  by (simp add: lit_def)

lemma current_key_bucket:
  assumes "cred_mode creds = lit ''rotating''"
  shows "(case get_current_pin P creds now fresh_pin of
            Inl e \<Rightarrow> Inl e
          | Inr pin \<Rightarrow> get_encryption_key P creds pin now) = bucket_key P creds \<lfloor>now / 15\<rfloor>"
  using assms
  by (auto simp: bucket_key_def get_current_pin_def get_encryption_key_def rotating_not_fixed
      Let_def split: sum.splits)

text \<open>
  What the handler does with an inbound ciphertext in rotating mode, when neither
  decryption raises: the cached key first, then the key of the current bucket.
\<close>

lemma on_message_received_rotating:
  assumes "sender msg \<noteq> lit ''me''"
    and "encryption_key scr = Some key" and "key \<noteq> []"
    and "cred_mode (credentials scr) = lit ''rotating''"
    and "decrypt_message P encrypted key = Inr cached_result"
    and "bucket_key P (credentials scr) \<lfloor>now / 15\<rfloor> = Inr current_key"
    and "decrypt_message P encrypted current_key = Inr current_result"
  shows "on_message_received P shown scr msg (Some encrypted) now fresh_pin =
           (case plain cached_result of
              Some text \<Rightarrow>
                (if shown (sender msg) (timestamp msg) text
                 then log_write scr (MessageLine (sender msg) (timestamp msg) text)
                 else log_write scr FailedLine)
            | None \<Rightarrow>
                (case plain current_result of
                   Some text \<Rightarrow>
                     (if shown (sender msg) (timestamp msg) text
                      then log_write (scr\<lparr>encryption_key := Some current_key\<rparr>)
                             (MessageLine (sender msg) (timestamp msg) text)
                      else log_write (scr\<lparr>encryption_key := Some current_key\<rparr>) FailedLine)
                 | None \<Rightarrow> log_write scr KeyMismatchLine))"
proof -
  from current_key_bucket[OF assms(4), of P now fresh_pin] assms(6)
  have cur: "(case get_current_pin P (credentials scr) now fresh_pin of
            Inl e \<Rightarrow> Inl e
          | Inr pin \<Rightarrow> get_encryption_key P (credentials scr) pin now) = Inr current_key"
    by simp
  then obtain pin where pin: "get_current_pin P (credentials scr) now fresh_pin = Inr pin"
    and k: "get_encryption_key P (credentials scr) pin now = Inr current_key"
    by (auto split: sum.splits)
  show ?thesis
    using assms(1-5,7) pin k
    by (simp add: on_message_received_def show_message_def split: option.splits)
qed

text \<open>
  \<^verbatim>\<open>try_decrypt_rotating\<close> accepts the current bucket's key only.
\<close>

lemma try_decrypt_rotating_current_only:
  assumes "cred_mode creds = lit ''rotating''"
    and "try_decrypt_rotating P encrypted creds now fresh_pin = Inr (Some (text, pin))"
  shows "\<exists>key. bucket_key P creds \<lfloor>now / 15\<rfloor> = Inr key \<and>
           decrypt_message P encrypted key = Inr (Some text)"
proof -
  from assms(2) obtain key where
    p: "get_current_pin P creds now fresh_pin = Inr pin" and
    k: "get_encryption_key P creds pin now = Inr key" and
    d: "decrypt_message P encrypted key = Inr (Some text)"
    by (auto simp: try_decrypt_rotating_def split: sum.splits option.splits if_splits)
  from current_key_bucket[OF assms(1), of P now fresh_pin] p k
  have "bucket_key P creds \<lfloor>now / 15\<rfloor> = Inr key" by simp
  with d show ?thesis by blast
qed

text \<open>
  Claim C2, as the code has it.  For an inbound ciphertext in rotating mode, from another
  sender and with a key cached, the Controller attempts decryption with the cached key and,
  when that yields no text, with the key of the current bucket.  Under the first of the two
  that yields a non-empty text the message is shown (the current key then replaces the
  cached one), or, when its timestamp cannot be formatted or its line cannot be written,
  the failure notice is logged in its place; when neither key yields a text, the message is
  reported as a key mismatch.  No other key is tried.
\<close>

theorem controller_tries_cached_then_current:
  assumes "sender msg \<noteq> lit ''me''"
    and "encryption_key scr = Some key" and "key \<noteq> []"
    and "cred_mode (credentials scr) = lit ''rotating''"
    and "decrypt_message P encrypted key = Inr cached_result"
    and "bucket_key P (credentials scr) \<lfloor>now / 15\<rfloor> = Inr current_key"
    and "decrypt_message P encrypted current_key = Inr current_result"
  shows "on_message_received P shown scr msg (Some encrypted) now fresh_pin =
           (case plain cached_result of
              Some text \<Rightarrow>
                (if shown (sender msg) (timestamp msg) text
                 then log_write scr (MessageLine (sender msg) (timestamp msg) text)
                 else log_write scr FailedLine)
            | None \<Rightarrow>
                (case plain current_result of
                   Some text \<Rightarrow>
                     (if shown (sender msg) (timestamp msg) text
                      then log_write (scr\<lparr>encryption_key := Some current_key\<rparr>)
                             (MessageLine (sender msg) (timestamp msg) text)
                      else log_write (scr\<lparr>encryption_key := Some current_key\<rparr>) FailedLine)
                 | None \<Rightarrow> log_write scr KeyMismatchLine))"
  using assms by (rule on_message_received_rotating)

lemma str66: "py_str_int 66 = [54, 54]" "py_str_int 67 = [54, 55]"
  "py_str_int 990 = [57, 57, 48]" "py_str_int 1005 = [49, 48, 48, 53]"
  by (simp_all add: py_str_int_def digits.simps)

lemma pin66: "get_current_pin demo_primitives demo_creds (of_int 66 * 15) [] = Inr [51, 54, 51, 54, 51, 48]"
  by (simp add: get_current_pin_def demo_creds_def lit_def str66 demo_emojis_def utf8_encode_def
      encode_cp_def demo_primitives_def demo_sha256_def hex_nibbles_def)

lemma pin67: "get_current_pin demo_primitives demo_creds (of_int 67 * 15) [] = Inr [51, 55, 51, 54, 51, 48]"
  by (simp add: get_current_pin_def demo_creds_def lit_def str66 demo_emojis_def utf8_encode_def
      encode_cp_def demo_primitives_def demo_sha256_def hex_nibbles_def)

lemma k66: "bucket_key demo_primitives demo_creds 66 =
  Inr [48, 57, 57, 58, 142, 146, 159, 240, 138, 140, 159, 240, 175, 142, 159,
      240, 240, 159, 148, 165, 240, 159, 140, 153, 226, 173, 144, 240, 159,
      142, 175, 240]"
  unfolding bucket_key_def pin66
  by (simp add: get_encryption_key_def derive_room_key_def room_salt_def salt_input_def
      demo_creds_def lit_def py_int_def str66 demo_emojis_def utf8_encode_def encode_cp_def
      demo_primitives_def demo_sha256_def demo_argon2id_def)

lemma k67: "bucket_key demo_primitives demo_creds 67 =
  Inr [53, 48, 48, 49, 58, 142, 146, 159, 240, 138, 140, 159, 240, 175, 142,
      159, 240, 159, 148, 165, 240, 159, 140, 153, 226, 173, 144, 240, 159,
      142, 175, 240]"
  unfolding bucket_key_def pin67
  by (simp add: get_encryption_key_def derive_room_key_def room_salt_def salt_input_def
      demo_creds_def lit_def py_int_def str66 demo_emojis_def utf8_encode_def encode_cp_def
      demo_primitives_def demo_sha256_def demo_argon2id_def)

lemma demo_key_66_value: "demo_key_66 =
   [48, 57, 57, 58, 142, 146, 159, 240, 138, 140, 159, 240, 175, 142, 159,
      240, 240, 159, 148, 165, 240, 159, 140, 153, 226, 173, 144, 240, 159,
      142, 175, 240]"
  by (simp add: demo_key_66_def k66)

lemma demo_key_67_value: "demo_key_67 =
   [53, 48, 48, 49, 58, 142, 146, 159, 240, 138, 140, 159, 240, 175, 142,
      159, 240, 159, 148, 165, 240, 159, 140, 153, 226, 173, 144, 240, 159,
      142, 175, 240]"
  by (simp add: demo_key_67_def k67)

lemma demo_ciphertext_value: "demo_ciphertext = demo_nonce @
   [48, 57, 57, 58, 142, 146, 159, 240, 138, 140, 159, 240, 175, 142, 159, 240, 104, 105]"
  by (simp add: demo_ciphertext_def encrypt_message_def SecretBox_encrypt_def demo_key_66_value
      KEY_SIZE_def NONCE_SIZE_def demo_nonce_def utf8_encode_def encode_cp_def lit_def
      demo_primitives_def demo_secretbox_def)

lemma decrypt_66: "decrypt_message demo_primitives demo_ciphertext demo_key_66 = Inr (Some (lit ''hi''))"
  by (simp add: demo_ciphertext_value demo_key_66_value decrypt_message_def SecretBox_decrypt_def
      KEY_SIZE_def NONCE_SIZE_def demo_nonce_def demo_primitives_def demo_secretbox_open_def
      utf8_decode_def lit_def Let_def)

lemma decrypt_67: "decrypt_message demo_primitives demo_ciphertext demo_key_67 = Inr None"
  by (simp add: demo_ciphertext_value demo_key_67_value decrypt_message_def SecretBox_decrypt_def
      KEY_SIZE_def NONCE_SIZE_def demo_nonce_def demo_primitives_def demo_secretbox_open_def
      Let_def)

lemma bucket_1006: "\<lfloor>(1006::real) / 15\<rfloor> = 67"
  by simp

lemma demo_bucket_keys:
  "bucket_key demo_primitives demo_creds 66 = Inr demo_key_66"
  "bucket_key demo_primitives demo_creds 67 = Inr demo_key_67"
  by (simp_all add: k66 k67 demo_key_66_value demo_key_67_value)

text \<open>
  A receiver in bucket 67 that still holds the key of bucket 66 shows a message encrypted
  in bucket 66; the same message with the timestamp 1e20 ends in the failure notice.
\<close>

theorem controller_tries_cached_then_current_witness:
  "sender demo_inbound \<noteq> lit ''me'' \<and>
   cred_mode (credentials demo_screen) = lit ''rotating'' \<and>
   decrypt_message demo_primitives demo_ciphertext demo_key_66 = Inr (Some (lit ''hi'')) \<and>
   bucket_key demo_primitives (credentials demo_screen) \<lfloor>(1006::real) / 15\<rfloor> = Inr demo_key_67 \<and>
   decrypt_message demo_primitives demo_ciphertext demo_key_67 = Inr None \<and>
   on_message_received demo_primitives demo_display (demo_screen\<lparr>encryption_key := Some demo_key_66\<rparr>)
     demo_inbound (Some demo_ciphertext) 1006 [] =
   log_write (demo_screen\<lparr>encryption_key := Some demo_key_66\<rparr>)
     (MessageLine (lit ''anon'') 1000 (lit ''hi'')) \<and>
   on_message_received demo_primitives demo_display (demo_screen\<lparr>encryption_key := Some demo_key_66\<rparr>)
     (demo_inbound\<lparr>timestamp := 100000000000000000000\<rparr>) (Some demo_ciphertext) 1006 [] =
   log_write (demo_screen\<lparr>encryption_key := Some demo_key_66\<rparr>) FailedLine"
proof -
  let ?scr = "demo_screen\<lparr>encryption_key := Some demo_key_66\<rparr>"
  let ?far = "demo_inbound\<lparr>timestamp := 100000000000000000000\<rparr>"
  have h1: "sender demo_inbound \<noteq> lit ''me''" by (simp add: demo_inbound_def lit_def)
  have h1': "sender ?far \<noteq> lit ''me''" by (simp add: demo_inbound_def lit_def)
  have h2: "encryption_key ?scr = Some demo_key_66" by simp
  have h3: "demo_key_66 \<noteq> []" by (simp add: demo_key_66_value)
  have h4: "cred_mode (credentials ?scr) = lit ''rotating''"
    by (simp add: demo_screen_def demo_creds_def)
  have h6: "bucket_key demo_primitives (credentials ?scr) \<lfloor>(1006::real) / 15\<rfloor> = Inr demo_key_67"
    unfolding bucket_1006 by (simp add: demo_screen_def demo_bucket_keys)
  have shown: "on_message_received demo_primitives demo_display ?scr demo_inbound
      (Some demo_ciphertext) 1006 [] =
      log_write ?scr (MessageLine (lit ''anon'') 1000 (lit ''hi''))"
    using controller_tries_cached_then_current[OF h1 h2 h3 h4 decrypt_66 h6 decrypt_67,
        of demo_display "[]"]
    by (simp add: plain_def demo_inbound_def demo_display_def lit_def)
  have failed: "on_message_received demo_primitives demo_display ?scr ?far
      (Some demo_ciphertext) 1006 [] = log_write ?scr FailedLine"
    using controller_tries_cached_then_current[OF h1' h2 h3 h4 decrypt_66 h6 decrypt_67,
        of demo_display "[]"]
    by (simp add: plain_def demo_inbound_def demo_display_def lit_def)
  from h1 h4 decrypt_66 h6 decrypt_67 shown failed show ?thesis by simp
qed

text \<open>
  A receiver in bucket 67 whose cached key is that of bucket 67 gets a message encrypted in
  bucket 66.  The previous bucket's key decrypts it, and the strategy of the specification
  finds the text; the handler reports a key mismatch.
\<close>

theorem adjacent_buckets_untried_counterexample:
  "bucket_key demo_primitives demo_creds (\<lfloor>(1006::real) / 15\<rfloor> - 1) = Inr demo_key_66 \<and>
   decrypt_message demo_primitives demo_ciphertext demo_key_66 = Inr (Some (lit ''hi'')) \<and>
   spec_try_keys demo_primitives demo_creds demo_ciphertext 1006 = Some (lit ''hi'') \<and>
   encryption_key demo_screen = Some demo_key_67 \<and>
   bucket_key demo_primitives demo_creds \<lfloor>(1006::real) / 15\<rfloor> = Inr demo_key_67 \<and>
   chat_log (on_message_received demo_primitives demo_display demo_screen demo_inbound
     (Some demo_ciphertext) 1006 []) = [KeyMismatchLine]"
proof -
  have prev: "bucket_key demo_primitives demo_creds (\<lfloor>(1006::real) / 15\<rfloor> - 1) = Inr demo_key_66"
    unfolding bucket_1006 by (simp add: demo_bucket_keys)
  have cur: "bucket_key demo_primitives demo_creds \<lfloor>(1006::real) / 15\<rfloor> = Inr demo_key_67"
    unfolding bucket_1006 by (simp add: demo_bucket_keys)
  have spec: "spec_try_keys demo_primitives demo_creds demo_ciphertext 1006 = Some (lit ''hi'')"
    unfolding spec_try_keys_def bucket_1006
    by (simp add: demo_bucket_keys decrypt_66 decrypt_67 plain_def lit_def)
  have h1: "sender demo_inbound \<noteq> lit ''me''" by (simp add: demo_inbound_def lit_def)
  have h2: "encryption_key demo_screen = Some demo_key_67" by (simp add: demo_screen_def)
  have h3: "demo_key_67 \<noteq> []" by (simp add: demo_key_67_value)
  have h4: "cred_mode (credentials demo_screen) = lit ''rotating''"
    by (simp add: demo_screen_def demo_creds_def)
  have h6: "bucket_key demo_primitives (credentials demo_screen) \<lfloor>(1006::real) / 15\<rfloor> = Inr demo_key_67"
    using cur by (simp add: demo_screen_def)
  have dropped: "chat_log (on_message_received demo_primitives demo_display demo_screen demo_inbound
      (Some demo_ciphertext) 1006 []) = [KeyMismatchLine]"
    using on_message_received_rotating[OF h1 h2 h3 h4 decrypt_67 h6 decrypt_67,
        of demo_display "[]"]
    by (simp add: plain_def log_write_def demo_screen_def)
  from prev decrypt_66 spec cur dropped show ?thesis by (simp add: demo_screen_def)
qed

end
